theory Spec2Isabelle
  imports Complex_Main "HOL-Library.AList"
begin

section \<open>API metering library: the batching and immediate reporting strategies\<close>

text \<open>
  A shallow embedding of \<^verbatim>\<open>src/stripe/batched-usage-record-strategy.ts\<close>,
  \<^verbatim>\<open>src/stripe/immediate-meter-event-strategy.ts\<close>, \<^verbatim>\<open>src/core/metering-service.ts\<close>,
  \<^verbatim>\<open>src/interfaces/config.ts\<close> and \<^verbatim>\<open>src/types/errors.ts\<close>.

  Conventions of the embedding:
  \<^item> a TypeScript \<^verbatim>\<open>number\<close> is a \<^typ>\<open>real\<close>; the values of \<^verbatim>\<open>Date.now()\<close> are
    integral and are an \<^typ>\<open>int\<close>. NaN, the infinities and the rounding of IEEE
    doubles are outside the model;
  \<^item> an optional property is an \<^typ>\<open>'a option\<close>, \<^verbatim>\<open>undefined\<close> being \<^term>\<open>None\<close>;
  \<^item> the \<^verbatim>\<open>Map<string, BatchedUsageRecord[]>\<close> is an association list in insertion
    order (the order \<^verbatim>\<open>keys()\<close> iterates in); \<^const>\<open>map_of\<close> is \<^verbatim>\<open>get\<close>,
    \<^const>\<open>AList.update\<close> is \<^verbatim>\<open>set\<close> (in place for a present key, at the end for a new one);
  \<^item> an \<^verbatim>\<open>async\<close> method is a function from the object and the outside world to a
    result (\<^term>\<open>Inl\<close> the rejection, \<^term>\<open>Inr\<close> the resolution), the object and the
    world after it. Each call runs to completion: no other task interleaves at an
    \<^verbatim>\<open>await\<close>;
  \<^item> the collaborators (the Stripe client, the overridable resolver, the clock) are
    the fields of an environment; what the code does to the outside (calls to Stripe,
    to the resolver, to \<^verbatim>\<open>console.error\<close>, to the timer functions) is logged in the world.
\<close>

subsection \<open>Errors (\<^verbatim>\<open>src/types/errors.ts\<close>) and thrown values\<close>

datatype error_class =
  PlainError | MeteringError | ConfigurationError | StripeApiError | InvalidInputError | DependencyError

text \<open>
  An instance of \<^verbatim>\<open>Error\<close> or of one of its subclasses. \<^verbatim>\<open>code\<close> is the property the
  Stripe client attaches to its own errors; \<^verbatim>\<open>stripeCode\<close> and \<^verbatim>\<open>statusCode\<close> are the
  properties of \<^verbatim>\<open>StripeApiError\<close> (\<^verbatim>\<open>statusCode\<close> is also what the client attaches).
\<close>

datatype js_error =
  JsError (errorClass: error_class) (message: string) (code: "string option")
          (stripeCode: "string option") (statusCode: "real option") (cause: "js_error option")

text \<open>
  Anything a \<^verbatim>\<open>throw\<close> can carry: an \<^verbatim>\<open>Error\<close> instance, or another value, of which the
  code reads \<^verbatim>\<open>String(error)\<close>, \<^verbatim>\<open>error.code\<close> and \<^verbatim>\<open>error.statusCode\<close>.
\<close>

datatype thrown =
  ThrownError js_error
| ThrownValue (stringForm: string) (valueCode: "string option") (valueStatusCode: "real option")

datatype 'a outcome = Returns 'a | Throws thrown

type_synonym result = "thrown + unit"

definition newError :: "string \<Rightarrow> js_error" where
  "newError msg = JsError PlainError msg None None None None"

definition newInvalidInputError :: "string \<Rightarrow> js_error" where
  "newInvalidInputError msg = JsError InvalidInputError msg None None None None"

text \<open>
  \<^verbatim>\<open>new StripeApiError(message, stripeError, cause)\<close>: the details are read only when
  \<^verbatim>\<open>stripeError\<close> is truthy; both callers pass either \<^verbatim>\<open>null\<close> or an object with both
  properties.
\<close>

definition newStripeApiError :: "string \<Rightarrow> (string \<times> real) option \<Rightarrow> js_error \<Rightarrow> js_error" where
  "newStripeApiError msg stripeError cause' =
     (case stripeError of
        None \<Rightarrow> JsError StripeApiError msg None None None (Some cause')
      | Some (c, s) \<Rightarrow> JsError StripeApiError msg None (Some c) (Some s) (Some cause'))"

text \<open>\<^verbatim>\<open>error instanceof Error ? error.message : String(error)\<close>\<close>

definition errorMessageOf :: "thrown \<Rightarrow> string" where
  "errorMessageOf error = (case error of ThrownError e \<Rightarrow> message e | ThrownValue s _ _ \<Rightarrow> s)"

text \<open>\<^verbatim>\<open>error.code\<close> and \<^verbatim>\<open>error.statusCode\<close> of the caught value.\<close>

definition thrownCode :: "thrown \<Rightarrow> string option" where
  "thrownCode error = (case error of ThrownError e \<Rightarrow> code e | ThrownValue _ c _ \<Rightarrow> c)"

definition thrownStatusCode :: "thrown \<Rightarrow> real option" where
  "thrownStatusCode error = (case error of ThrownError e \<Rightarrow> statusCode e | ThrownValue _ _ s \<Rightarrow> s)"

text \<open>
  \<^verbatim>\<open>stripeError.code && stripeError.statusCode ? { code, statusCode } : null\<close>: the empty
  string and the number 0 are falsy, as \<^verbatim>\<open>undefined\<close> is.
\<close>

definition errorDetailsOf :: "thrown \<Rightarrow> (string \<times> real) option" where
  "errorDetailsOf error =
     (case thrownCode error of
        None \<Rightarrow> None
      | Some c \<Rightarrow>
          if c = [] then None
          else (case thrownStatusCode error of
                  None \<Rightarrow> None
                | Some s \<Rightarrow> if s = 0 then None else Some (c, s)))"

text \<open>\<^verbatim>\<open>error instanceof Error ? error : new Error(String(error))\<close>\<close>

definition causeOf :: "thrown \<Rightarrow> js_error" where
  "causeOf error = (case error of ThrownError e \<Rightarrow> e | ThrownValue s _ _ \<Rightarrow> newError s)"

subsection \<open>Data of the batching strategy\<close>

record BatchedUsageRecord =
  customerId :: string
  usageValue :: real
  apiEndpoint :: "string option"
  timestamp :: int

datatype StripeUsageAction = INCREMENT | SET

datatype StripeAggregationMethod = AGG_SUM | AGG_LAST_DURING_PERIOD | AGG_MAX | AGG_LAST_EVER

text \<open>One call \<^verbatim>\<open>stripe.subscriptionItems.createUsageRecord(id, {quantity, timestamp, action})\<close>.\<close>

record UsageRecordCall =
  subscription_item :: string
  quantity :: real
  timestamp_seconds :: int
  action :: StripeUsageAction

text \<open>One call \<^verbatim>\<open>stripe.billingPortal.meterEvents.create({...})\<close> of the immediate strategy.\<close>

record MeterEventCall =
  customer :: string
  event_value :: real
  event_action :: StripeUsageAction
  aggregation_method :: StripeAggregationMethod
  idempotency_key :: string
  api_endpoint :: string

record BatchedUsageRecordConfig =
  stripeApiKey :: string
  config_batchIntervalMs :: "real option"
  config_maxBatchSize :: "real option"
  config_flushOnDispose :: "bool option"

text \<open>
  The fields of the class. The Stripe client is in the environment; the constructor's
  parameter property \<^verbatim>\<open>config\<close> is never read after construction and is left out.
  \<^verbatim>\<open>flushInterval\<close> is the handle \<^verbatim>\<open>setInterval\<close> returned (the index of the call), or
  \<^verbatim>\<open>null\<close>.
\<close>

record BatchedUsageRecordStrategy =
  batchIntervalMs :: real
  maxBatchSize :: real
  flushOnDispose :: bool
  pendingUsage :: "(string \<times> BatchedUsageRecord list) list"
  flushInterval :: "nat option"
  disposed :: bool

subsection \<open>The environment and the world\<close>

text \<open>
  \<^verbatim>\<open>getSubscriptionItemId\<close> is the overridable resolver; its declared result type is
  \<^verbatim>\<open>Promise<string>\<close>. The two Stripe calls answer from the calls made before and the
  call itself: \<^term>\<open>None\<close> is success, \<^term>\<open>Some e\<close> throws \<^term>\<open>e\<close>. \<^verbatim>\<open>dateNow n\<close> is what
  the \<open>n\<close>-th reading of the clock returns, in milliseconds.
\<close>

record env =
  getSubscriptionItemId :: "string \<Rightarrow> string outcome"
  createUsageRecord :: "UsageRecordCall list \<Rightarrow> UsageRecordCall \<Rightarrow> thrown option"
  meterEventsCreate :: "MeterEventCall list \<Rightarrow> MeterEventCall \<Rightarrow> thrown option"
  dateNow :: "nat \<Rightarrow> int"

record world =
  usageRecordCalls :: "UsageRecordCall list"
  meterEventCalls :: "MeterEventCall list"
  resolverCalls :: "string list"
  consoleErrors :: "(string \<times> thrown) list"
  setIntervalCalls :: "real list"
  unrefCalls :: "nat list"
  clearIntervalCalls :: "nat list"
  clockReads :: nat

definition Date_now :: "env \<Rightarrow> world \<Rightarrow> int \<times> world" where
  "Date_now e w = (dateNow e (clockReads w), w\<lparr>clockReads := Suc (clockReads w)\<rparr>)"

text \<open>The resolver of the base class, which every integrator overrides.\<close>

definition base_getSubscriptionItemId :: "string \<Rightarrow> string outcome" where
  "base_getSubscriptionItemId cust =
     Throws (ThrownError (newError ''Subscription item ID resolution is not implemented in this example''))"

subsection \<open>The constructor\<close>

text \<open>
  \<^verbatim>\<open>x || d\<close> on an optional number: \<^verbatim>\<open>undefined\<close> and 0 are falsy. The constructor
  arms the timer with \<^verbatim>\<open>setInterval\<close> and calls \<^verbatim>\<open>unref\<close> on the handle, which the
  handles of Node have.
\<close>

definition orDefault :: "real option \<Rightarrow> real \<Rightarrow> real" where
  "orDefault x d = (case x of None \<Rightarrow> d | Some v \<Rightarrow> if v = 0 then d else v)"

definition newBatchedUsageRecordStrategy ::
  "BatchedUsageRecordConfig \<Rightarrow> world \<Rightarrow> (thrown + BatchedUsageRecordStrategy) \<times> world" where
  "newBatchedUsageRecordStrategy config w =
     (if stripeApiKey config = [] then
        (Inl (ThrownError (newError ''Stripe API key is required'')), w)
      else
        let interval = orDefault (config_batchIntervalMs config) 60000;
            size = orDefault (config_maxBatchSize config) 100;
            flush = (config_flushOnDispose config \<noteq> Some False);
            handle = length (setIntervalCalls w);
            w1 = w\<lparr>setIntervalCalls := setIntervalCalls w @ [interval]\<rparr>;
            w2 = w1\<lparr>unrefCalls := unrefCalls w1 @ [handle]\<rparr>
        in (Inr \<lparr>batchIntervalMs = interval, maxBatchSize = size, flushOnDispose = flush,
                 pendingUsage = [], flushInterval = Some handle, disposed = False\<rparr>, w2))"

subsection \<open>\<^verbatim>\<open>flushBatch\<close> and \<^verbatim>\<open>flushAllBatches\<close>\<close>

text \<open>\<^verbatim>\<open>usageRecords.reduce((sum, record) => sum + record.usageValue, 0)\<close>\<close>

definition totalUsageOf :: "BatchedUsageRecord list \<Rightarrow> real" where
  "totalUsageOf usageRecords = foldl (\<lambda>sum record. sum + usageValue record) 0 usageRecords"

definition flushBatch ::
  "env \<Rightarrow> string \<Rightarrow> BatchedUsageRecordStrategy \<Rightarrow> world
     \<Rightarrow> result \<times> BatchedUsageRecordStrategy \<times> world" where
  "flushBatch e subscriptionItemId this w =
     (case map_of (pendingUsage this) subscriptionItemId of
        None \<Rightarrow> (Inr (), this, w)
      | Some usageRecords \<Rightarrow>
          if length usageRecords = 0 then (Inr (), this, w)
          else
            let totalUsage = totalUsageOf usageRecords;
                (now, w1) = Date_now e w;
                call = \<lparr>subscription_item = subscriptionItemId, quantity = totalUsage,
                        timestamp_seconds = now div 1000, action = INCREMENT\<rparr>;
                w2 = w1\<lparr>usageRecordCalls := usageRecordCalls w1 @ [call]\<rparr>
            in (case createUsageRecord e (usageRecordCalls w1) call of
                  None \<Rightarrow>
                    (Inr (),
                     this\<lparr>pendingUsage := AList.update subscriptionItemId [] (pendingUsage this)\<rparr>,
                     w2)
                | Some error \<Rightarrow>
                    (Inl (ThrownError (newStripeApiError
                            (''Failed to flush usage records for subscription item ''
                               @ subscriptionItemId @ '': '' @ errorMessageOf error)
                            (errorDetailsOf error) (causeOf error))),
                     this, w2)))"

text \<open>
  The loop of \<^verbatim>\<open>flushAllBatches\<close> over the snapshot of the keys: each failure is caught
  and written to \<^verbatim>\<open>console.error\<close>.
\<close>

fun flushEach ::
  "env \<Rightarrow> string list \<Rightarrow> BatchedUsageRecordStrategy \<Rightarrow> world
     \<Rightarrow> BatchedUsageRecordStrategy \<times> world" where
  "flushEach e [] this w = (this, w)"
| "flushEach e (subscriptionItemId # rest) this w =
     (case flushBatch e subscriptionItemId this w of
        (Inr _, this', w') \<Rightarrow> flushEach e rest this' w'
      | (Inl error, this', w') \<Rightarrow>
          flushEach e rest this'
            (w'\<lparr>consoleErrors := consoleErrors w'
                   @ [(''Error flushing batch for '' @ subscriptionItemId @ '':'', error)]\<rparr>))"

definition flushAllBatches ::
  "env \<Rightarrow> BatchedUsageRecordStrategy \<Rightarrow> world \<Rightarrow> result \<times> BatchedUsageRecordStrategy \<times> world" where
  "flushAllBatches e this w =
     (let subscriptionItemIds = map fst (pendingUsage this);
          (this', w') = flushEach e subscriptionItemIds this w
      in (Inr (), this', w'))"

subsection \<open>\<^verbatim>\<open>recordUsage\<close> and \<^verbatim>\<open>dispose\<close> of the batching strategy\<close>

text \<open>
  The \<^verbatim>\<open>catch\<close> of \<^verbatim>\<open>recordUsage\<close>: an \<^verbatim>\<open>Error\<close> is thrown again as it is, anything else
  is wrapped.
\<close>

definition recordUsage_catch :: "thrown \<Rightarrow> thrown" where
  "recordUsage_catch error =
     (case error of
        ThrownError e \<Rightarrow> ThrownError e
      | ThrownValue s _ _ \<Rightarrow> ThrownError (newError (''Unknown error in recordUsage: '' @ s)))"

definition recordUsage ::
  "env \<Rightarrow> string \<Rightarrow> real \<Rightarrow> string option \<Rightarrow> BatchedUsageRecordStrategy \<Rightarrow> world
     \<Rightarrow> result \<times> BatchedUsageRecordStrategy \<times> world" where
  "recordUsage e cust amount endpoint this w =
     (if disposed this then
        (Inl (ThrownError (newError ''Strategy has been disposed and cannot record usage'')), this, w)
      else if cust = [] then
        (Inl (ThrownError (newInvalidInputError ''Customer ID is required'')), this, w)
      else if amount \<le> 0 then
        (Inl (ThrownError (newInvalidInputError ''Usage value must be greater than zero'')), this, w)
      else
        let w1 = w\<lparr>resolverCalls := resolverCalls w @ [cust]\<rparr> in
        (case getSubscriptionItemId e cust of
           Throws error \<Rightarrow> (Inl (recordUsage_catch error), this, w1)
         | Returns subscriptionItemId \<Rightarrow>
             let pending = (if map_of (pendingUsage this) subscriptionItemId = None
                            then AList.update subscriptionItemId [] (pendingUsage this)
                            else pendingUsage this);
                 (now, w2) = Date_now e w1;
                 usageRecords = (case map_of pending subscriptionItemId of
                                   Some records \<Rightarrow> records | None \<Rightarrow> [])
                                 @ [\<lparr>customerId = cust, usageValue = amount,
                                      apiEndpoint = endpoint, timestamp = now\<rparr>];
                 this1 = this\<lparr>pendingUsage := AList.update subscriptionItemId usageRecords pending\<rparr>
             in if real (length usageRecords) \<ge> maxBatchSize this1 then
                  (case flushBatch e subscriptionItemId this1 w2 of
                     (Inl error, this2, w3) \<Rightarrow> (Inl (recordUsage_catch error), this2, w3)
                   | (Inr u, this2, w3) \<Rightarrow> (Inr u, this2, w3))
                else (Inr (), this1, w2)))"

text \<open>
  \<^verbatim>\<open>dispose\<close>, with the sweep it awaits as a parameter (\<^verbatim>\<open>this.flushAllBatches\<close> is
  looked up on the object when it is called, and the tests replace it by one that
  rejects).
\<close>

definition dispose_with ::
  "(BatchedUsageRecordStrategy \<Rightarrow> world \<Rightarrow> result \<times> BatchedUsageRecordStrategy \<times> world)
     \<Rightarrow> BatchedUsageRecordStrategy \<Rightarrow> world \<Rightarrow> result \<times> BatchedUsageRecordStrategy \<times> world" where
  "dispose_with sweep this w =
     (if disposed this then (Inr (), this, w)
      else
        let (this1, w1) =
              (case flushInterval this of
                 Some handle \<Rightarrow>
                   (this\<lparr>flushInterval := None\<rparr>,
                    w\<lparr>clearIntervalCalls := clearIntervalCalls w @ [handle]\<rparr>)
               | None \<Rightarrow> (this, w));
            (this2, w2) =
              (if flushOnDispose this1 then
                 (case sweep this1 w1 of
                    (Inr _, this', w') \<Rightarrow> (this', w')
                  | (Inl error, this', w') \<Rightarrow>
                      (this', w'\<lparr>consoleErrors := consoleErrors w'
                                   @ [(''Error flushing batches during disposal:'', error)]\<rparr>))
               else (this1, w1))
        in (Inr (), this2\<lparr>disposed := True\<rparr>, w2))"

definition dispose ::
  "env \<Rightarrow> BatchedUsageRecordStrategy \<Rightarrow> world \<Rightarrow> result \<times> BatchedUsageRecordStrategy \<times> world" where
  "dispose e this w = dispose_with (flushAllBatches e) this w"

text \<open>
  The callback the constructor hands to \<^verbatim>\<open>setInterval\<close>:
  \<^verbatim>\<open>this.flushAllBatches().catch(error => console.error(...))\<close>.
\<close>

definition intervalCallback ::
  "env \<Rightarrow> BatchedUsageRecordStrategy \<Rightarrow> world \<Rightarrow> result \<times> BatchedUsageRecordStrategy \<times> world" where
  "intervalCallback e this w =
     (case flushAllBatches e this w of
        (Inr u, this', w') \<Rightarrow> (Inr u, this', w')
      | (Inl error, this', w') \<Rightarrow>
          (Inr (), this',
           w'\<lparr>consoleErrors := consoleErrors w' @ [(''Error flushing batched usage:'', error)]\<rparr>))"

text \<open>
  What can happen to a batching strategy, and a run of such events in order. A run
  keeps each event with the result it produced.
\<close>

datatype batched_event = RecordUsage string real "string option" | Dispose | TimerTick

fun batched_step ::
  "env \<Rightarrow> batched_event \<Rightarrow> BatchedUsageRecordStrategy \<Rightarrow> world
     \<Rightarrow> result \<times> BatchedUsageRecordStrategy \<times> world" where
  "batched_step e (RecordUsage cust amount endpoint) this w = recordUsage e cust amount endpoint this w"
| "batched_step e Dispose this w = dispose e this w"
| "batched_step e TimerTick this w = intervalCallback e this w"

fun batched_run ::
  "env \<Rightarrow> batched_event list \<Rightarrow> BatchedUsageRecordStrategy \<Rightarrow> world
     \<Rightarrow> (batched_event \<times> result) list \<times> BatchedUsageRecordStrategy \<times> world" where
  "batched_run e [] this w = ([], this, w)"
| "batched_run e (ev # evs) this w =
     (case batched_step e ev this w of
        (r, this', w') \<Rightarrow>
          (case batched_run e evs this' w' of
             (rs, this'', w'') \<Rightarrow> ((ev, r) # rs, this'', w'')))"

subsection \<open>The immediate strategy\<close>

record ImmediateMeterEventStrategy =
  idempotencyKeyPrefix :: string
  immediate_disposed :: bool

text \<open>The decimal form a template string gives an integral number.\<close>

fun digitsOf :: "nat \<Rightarrow> string" where
  "digitsOf n =
     (if n < 10 then [char_of (48 + n)] else digitsOf (n div 10) @ [char_of (48 + n mod 10)])"

declare digitsOf.simps [simp del]

definition stringOfInt :: "int \<Rightarrow> string" where
  "stringOfInt i = (if i < 0 then CHR ''-'' # digitsOf (nat (- i)) else digitsOf (nat i))"

definition immediate_recordUsage ::
  "env \<Rightarrow> string \<Rightarrow> real \<Rightarrow> string option \<Rightarrow> ImmediateMeterEventStrategy \<Rightarrow> world
     \<Rightarrow> result \<times> ImmediateMeterEventStrategy \<times> world" where
  "immediate_recordUsage e cust amount endpoint this w =
     (if immediate_disposed this then
        (Inl (ThrownError (newError ''Strategy has been disposed and cannot record usage'')), this, w)
      else if cust = [] then
        (Inl (ThrownError (newInvalidInputError ''Customer ID is required'')), this, w)
      else if amount \<le> 0 then
        (Inl (ThrownError (newInvalidInputError ''Usage value must be greater than zero'')), this, w)
      else
        let (now, w1) = Date_now e w;
            idempotencyKey = idempotencyKeyPrefix this @ ''_'' @ cust @ ''_'' @ stringOfInt now;
            call = \<lparr>customer = cust, event_value = amount, event_action = INCREMENT,
                    aggregation_method = AGG_SUM, idempotency_key = idempotencyKey,
                    api_endpoint = (case endpoint of
                                      None \<Rightarrow> ''not_specified''
                                    | Some ep \<Rightarrow> if ep = [] then ''not_specified'' else ep)\<rparr>;
            w2 = w1\<lparr>meterEventCalls := meterEventCalls w1 @ [call]\<rparr>
        in (case meterEventsCreate e (meterEventCalls w1) call of
              None \<Rightarrow> (Inr (), this, w2)
            | Some error \<Rightarrow>
                (Inl (ThrownError (newStripeApiError
                        (''Failed to record meter event for customer '' @ cust @ '': ''
                           @ errorMessageOf error)
                        (errorDetailsOf error) (causeOf error))),
                 this, w2)))"

definition immediate_dispose ::
  "ImmediateMeterEventStrategy \<Rightarrow> world \<Rightarrow> result \<times> ImmediateMeterEventStrategy \<times> world" where
  "immediate_dispose this w = (Inr (), this\<lparr>immediate_disposed := True\<rparr>, w)"

datatype immediate_event = ImmediateRecordUsage string real "string option" | ImmediateDispose

fun immediate_step ::
  "env \<Rightarrow> immediate_event \<Rightarrow> ImmediateMeterEventStrategy \<Rightarrow> world
     \<Rightarrow> result \<times> ImmediateMeterEventStrategy \<times> world" where
  "immediate_step e (ImmediateRecordUsage cust amount endpoint) this w =
     immediate_recordUsage e cust amount endpoint this w"
| "immediate_step e ImmediateDispose this w = immediate_dispose this w"

fun immediate_run ::
  "env \<Rightarrow> immediate_event list \<Rightarrow> ImmediateMeterEventStrategy \<Rightarrow> world
     \<Rightarrow> (immediate_event \<times> result) list \<times> ImmediateMeterEventStrategy \<times> world" where
  "immediate_run e [] this w = ([], this, w)"
| "immediate_run e (ev # evs) this w =
     (case immediate_step e ev this w of
        (r, this', w') \<Rightarrow>
          (case immediate_run e evs this' w' of
             (rs, this'', w'') \<Rightarrow> ((ev, r) # rs, this'', w'')))"

text \<open>The rejection of \<^verbatim>\<open>recordUsage\<close> on a disposed strategy, the same in both classes.\<close>

definition lifecycleError :: thrown where
  "lifecycleError = ThrownError (newError ''Strategy has been disposed and cannot record usage'')"

subsection \<open>The metering service (\<^verbatim>\<open>src/core/metering-service.ts\<close>)\<close>

text \<open>\<^verbatim>\<open>enhancedError.message = ...\<close>: the same error object with another message.\<close>

fun setMessage :: "string \<Rightarrow> js_error \<Rightarrow> js_error" where
  "setMessage msg (JsError cls old c sc st ca) = JsError cls msg c sc st ca"

text \<open>
  \<^verbatim>\<open>recordApiCall\<close>, over the \<^verbatim>\<open>recordUsage\<close> of whichever strategy the service holds. The
  usage value defaults to 1 when it is not given.
\<close>

definition recordApiCall ::
  "(string \<Rightarrow> real \<Rightarrow> string option \<Rightarrow> 's \<Rightarrow> world \<Rightarrow> result \<times> 's \<times> world)
     \<Rightarrow> string \<Rightarrow> real option \<Rightarrow> string option \<Rightarrow> 's \<Rightarrow> world \<Rightarrow> result \<times> 's \<times> world" where
  "recordApiCall strategy_recordUsage cust amount endpoint this w =
     (let usage = (case amount of None \<Rightarrow> 1 | Some v \<Rightarrow> v) in
      if cust = [] then (Inl (ThrownError (newError ''Customer ID is required'')), this, w)
      else if usage \<le> 0 then
        (Inl (ThrownError (newError ''Usage value must be greater than zero'')), this, w)
      else
        (case strategy_recordUsage cust usage endpoint this w of
           (Inr u, this', w') \<Rightarrow> (Inr u, this', w')
         | (Inl error, this', w') \<Rightarrow>
             let enhancedError = (case error of
                                    ThrownError err \<Rightarrow> err
                                  | ThrownValue s c st \<Rightarrow> newError ''Unknown error occurred'')
             in (Inl (ThrownError (setMessage (''Failed to record API call: ''
                                                 @ message enhancedError) enhancedError)),
                 this', w')))"

subsection \<open>Concrete collaborators, after the mocks of the test suites\<close>

text \<open>
  The resolver and the Stripe client of \<^verbatim>\<open>tests/stripe/*.test.ts\<close>: the customer
  \<^verbatim>\<open>cus_error\<close> resolves to \<^verbatim>\<open>si_error\<close>, for which Stripe rejects; \<^verbatim>\<open>cus_unknown\<close> and
  \<^verbatim>\<open>cus_string_error\<close> make the resolver throw. Added to them: a customer whose
  resolver returns the empty string, a meter event rejected with an \<^verbatim>\<open>Error\<close> that has a
  \<^verbatim>\<open>code\<close> and no \<^verbatim>\<open>statusCode\<close> (as a network error of Node is), one rejected with a
  plain object \<^verbatim>\<open>{code: 'rate_limit'}\<close>, and one rejected with both properties.
\<close>

definition example_env :: env where
  "example_env =
     \<lparr>getSubscriptionItemId = (\<lambda>cust.
          if cust = ''cus_unknown'' then Throws (ThrownError (newError ''Unknown customer''))
          else if cust = ''cus_string_error'' then Throws (ThrownValue ''String error'' None None)
          else if cust = ''cus_error'' then Returns ''si_error''
          else if cust = ''cus_empty'' then Returns []
          else Returns ''si_123''),
      createUsageRecord = (\<lambda>previous call.
          if subscription_item call = ''si_error''
          then Some (ThrownError (newError ''Stripe API error'')) else None),
      meterEventsCreate = (\<lambda>previous call.
          if customer call = ''cus_error'' then Some (ThrownError (newError ''Stripe API error''))
          else if customer call = ''cus_reset'' then
            Some (ThrownError (JsError PlainError ''socket hang up'' (Some ''ECONNRESET'') None None None))
          else if customer call = ''cus_object'' then
            Some (ThrownValue ''[object Object]'' (Some ''rate_limit'') None)
          else if customer call = ''cus_404'' then
            Some (ThrownError (JsError PlainError ''Resource not found'' (Some ''resource_missing'')
                                  None (Some 404) None))
          else None),
      dateNow = (\<lambda>n. 1700000000000 + int n)\<rparr>"

definition example_world :: world where
  "example_world =
     \<lparr>usageRecordCalls = [], meterEventCalls = [], resolverCalls = [], consoleErrors = [],
      setIntervalCalls = [], unrefCalls = [], clearIntervalCalls = [], clockReads = 0\<rparr>"

definition example_config :: BatchedUsageRecordConfig where
  "example_config =
     \<lparr>stripeApiKey = ''test_key'', config_batchIntervalMs = Some 1000,
      config_maxBatchSize = Some 5, config_flushOnDispose = Some True\<rparr>"

text \<open>The strategy the constructor builds from \<^const>\<open>example_config\<close> in \<^const>\<open>example_world\<close>.\<close>

definition example_strategy :: BatchedUsageRecordStrategy where
  "example_strategy =
     \<lparr>batchIntervalMs = 1000, maxBatchSize = 5, flushOnDispose = True,
      pendingUsage = [], flushInterval = Some 0, disposed = False\<rparr>"

text \<open>\<^verbatim>\<open>addTestRecords\<close> of the test suite pushes records like this one.\<close>

definition example_record :: "real \<Rightarrow> BatchedUsageRecord" where
  "example_record amount =
     \<lparr>customerId = ''cus_test'', usageValue = amount, apiEndpoint = None,
      timestamp = 1700000000000\<rparr>"

definition example_immediate :: ImmediateMeterEventStrategy where
  "example_immediate = \<lparr>idempotencyKeyPrefix = ''test_prefix'', immediate_disposed = False\<rparr>"

subsection \<open>Vocabulary for the statements\<close>

text \<open>
  The functions of this subsection are not in the source: they name what the theorems
  speak about (the call a flush has to make, the batch under a key, the number of
  calls made for a key).
\<close>

definition flushCall :: "env \<Rightarrow> string \<Rightarrow> BatchedUsageRecord list \<Rightarrow> world \<Rightarrow> UsageRecordCall" where
  "flushCall e k recs w =
     \<lparr>subscription_item = k, quantity = sum_list (map usageValue recs),
      timestamp_seconds = dateNow e (clockReads w) div 1000, action = INCREMENT\<rparr>"

definition afterFlushCall :: "env \<Rightarrow> string \<Rightarrow> BatchedUsageRecord list \<Rightarrow> world \<Rightarrow> world" where
  "afterFlushCall e k recs w =
     w\<lparr>clockReads := Suc (clockReads w),
       usageRecordCalls := usageRecordCalls w @ [flushCall e k recs w]\<rparr>"

definition callsFor :: "string \<Rightarrow> world \<Rightarrow> nat" where
  "callsFor k w = length (filter (\<lambda>call. subscription_item call = k) (usageRecordCalls w))"

definition hasPending :: "BatchedUsageRecordStrategy \<Rightarrow> string \<Rightarrow> bool" where
  "hasPending this k =
     (case map_of (pendingUsage this) k of None \<Rightarrow> False | Some recs \<Rightarrow> recs \<noteq> [])"

definition flushReport :: "string \<Rightarrow> string" where
  "flushReport k = ''Error flushing batch for '' @ k @ '':''"

definition batchOf :: "BatchedUsageRecordStrategy \<Rightarrow> string \<Rightarrow> BatchedUsageRecord list" where
  "batchOf this k = (case map_of (pendingUsage this) k of None \<Rightarrow> [] | Some recs \<Rightarrow> recs)"

definition appended ::
  "env \<Rightarrow> string \<Rightarrow> string \<Rightarrow> real \<Rightarrow> string option \<Rightarrow> BatchedUsageRecordStrategy \<Rightarrow> world
     \<Rightarrow> BatchedUsageRecord list" where
  "appended e k cust amount endpoint this w =
     batchOf this k @ [\<lparr>customerId = cust, usageValue = amount, apiEndpoint = endpoint,
                        timestamp = dateNow e (clockReads w)\<rparr>]"

definition afterAppend ::
  "env \<Rightarrow> string \<Rightarrow> string \<Rightarrow> real \<Rightarrow> string option \<Rightarrow> BatchedUsageRecordStrategy \<Rightarrow> world
     \<Rightarrow> BatchedUsageRecordStrategy \<times> world" where
  "afterAppend e k cust amount endpoint this w =
     (this\<lparr>pendingUsage := AList.update k (appended e k cust amount endpoint this w) (pendingUsage this)\<rparr>,
      w\<lparr>resolverCalls := resolverCalls w @ [cust], clockReads := Suc (clockReads w)\<rparr>)"

text \<open>
  Two pending batches, as the test "should continue flushing other batches if one fails"
  builds them: one record under \<^verbatim>\<open>si_error\<close>, then two under \<^verbatim>\<open>si_123\<close>.
\<close>

definition example_two_batches :: BatchedUsageRecordStrategy where
  "example_two_batches =
     example_strategy\<lparr>pendingUsage :=
       [(''si_error'', [example_record 1]), (''si_123'', [example_record 1, example_record 1])]\<rparr>"

text \<open>Which events of a run are calls of \<^verbatim>\<open>recordUsage\<close>.\<close>

fun isRecordUsage :: "batched_event \<Rightarrow> bool" where
  "isRecordUsage (RecordUsage cust amount endpoint) = True"
| "isRecordUsage Dispose = False"
| "isRecordUsage TimerTick = False"

fun isImmediateRecordUsage :: "immediate_event \<Rightarrow> bool" where
  "isImmediateRecordUsage (ImmediateRecordUsage cust amount endpoint) = True"
| "isImmediateRecordUsage ImmediateDispose = False"

text \<open>
  A sweep that rejects, as the test "should handle errors when flushing batches during
  disposal" puts in the place of \<^verbatim>\<open>flushAllBatches\<close>.
\<close>

definition example_rejecting_sweep ::
  "BatchedUsageRecordStrategy \<Rightarrow> world \<Rightarrow> result \<times> BatchedUsageRecordStrategy \<times> world" where
  "example_rejecting_sweep this w = (Inl (ThrownError (newError ''Flush error'')), this, w)"

text \<open>Events that follow a disposal, among them two calls of \<^verbatim>\<open>recordUsage\<close>.\<close>

definition example_events :: "batched_event list" where
  "example_events =
     [RecordUsage ''cus_123'' 1 None, TimerTick, Dispose, RecordUsage ''cus_error'' 2 (Some ''/api/data'')]"

definition example_immediate_events :: "immediate_event list" where
  "example_immediate_events =
     [ImmediateRecordUsage ''cus_123'' 1 None, ImmediateDispose,
      ImmediateRecordUsage ''cus_error'' 2 (Some ''/api/data'')]"

text \<open>The strategy of the test "should flush the batch when it reaches maximum size".\<close>

definition example_small :: BatchedUsageRecordStrategy where
  "example_small = example_strategy\<lparr>maxBatchSize := 2\<rparr>"

section \<open>Properties\<close>

subsection \<open>Flushing one batch\<close>

lemma totalUsageOf_acc:
  "foldl (\<lambda>sum record. sum + usageValue record) a rs = a + sum_list (map usageValue rs)"
  by (induction rs arbitrary: a) simp_all

lemma totalUsageOf_sum_list: "totalUsageOf rs = sum_list (map usageValue rs)"
  by (simp add: totalUsageOf_def totalUsageOf_acc)

lemma flushBatch_absent:
  "map_of (pendingUsage this) k = None \<Longrightarrow> flushBatch e k this w = (Inr (), this, w)"
  by (simp add: flushBatch_def)

lemma flushBatch_empty:
  "map_of (pendingUsage this) k = Some [] \<Longrightarrow> flushBatch e k this w = (Inr (), this, w)"
  by (simp add: flushBatch_def)

lemma flushBatch_success:
  assumes "map_of (pendingUsage this) k = Some recs" and "recs \<noteq> []"
    and "createUsageRecord e (usageRecordCalls w) (flushCall e k recs w) = None"
  shows "flushBatch e k this w =
           (Inr (), this\<lparr>pendingUsage := AList.update k [] (pendingUsage this)\<rparr>,
            afterFlushCall e k recs w)"
  using assms
  by (simp add: flushBatch_def Date_now_def flushCall_def afterFlushCall_def totalUsageOf_sum_list)

lemma flushBatch_failure:
  assumes "map_of (pendingUsage this) k = Some recs" and "recs \<noteq> []"
    and "createUsageRecord e (usageRecordCalls w) (flushCall e k recs w) = Some error"
  shows "flushBatch e k this w =
           (Inl (ThrownError (newStripeApiError
                   (''Failed to flush usage records for subscription item '' @ k @ '': ''
                      @ errorMessageOf error)
                   (errorDetailsOf error) (causeOf error))),
            this, afterFlushCall e k recs w)"
  using assms
  by (simp add: flushBatch_def Date_now_def flushCall_def afterFlushCall_def totalUsageOf_sum_list)

lemma flushBatch_cases:
  obtains (noop) "\<not> hasPending this k" "flushBatch e k this w = (Inr (), this, w)"
  | (success) recs where "map_of (pendingUsage this) k = Some recs" "recs \<noteq> []"
      "flushBatch e k this w =
         (Inr (), this\<lparr>pendingUsage := AList.update k [] (pendingUsage this)\<rparr>,
          afterFlushCall e k recs w)"
  | (failure) recs error where "map_of (pendingUsage this) k = Some recs" "recs \<noteq> []"
      "flushBatch e k this w =
         (Inl (ThrownError (newStripeApiError
                 (''Failed to flush usage records for subscription item '' @ k @ '': ''
                    @ errorMessageOf error)
                 (errorDetailsOf error) (causeOf error))),
          this, afterFlushCall e k recs w)"
proof (cases "map_of (pendingUsage this) k")
  case None
  then show ?thesis using noop by (simp add: hasPending_def flushBatch_absent)
next
  case (Some recs)
  show ?thesis
  proof (cases "recs = []")
    case True
    then show ?thesis using Some noop by (simp add: hasPending_def flushBatch_empty)
  next
    case False
    show ?thesis
    proof (cases "createUsageRecord e (usageRecordCalls w) (flushCall e k recs w)")
      case None
      then show ?thesis using success Some False flushBatch_success by blast
    next
      case (Some error)
      then show ?thesis using failure \<open>map_of (pendingUsage this) k = Some recs\<close> False flushBatch_failure by blast
    qed
  qed
qed

lemma callsFor_afterFlushCall:
  "callsFor k' (afterFlushCall e k recs w) = callsFor k' w + (if k' = k then 1 else 0)"
  by (simp add: callsFor_def afterFlushCall_def flushCall_def)

lemma flushBatch_callsFor:
  assumes "flushBatch e k this w = (r, this', w')"
  shows "callsFor k' w' = callsFor k' w + (if k' = k \<and> hasPending this k then 1 else 0)"
proof (cases rule: flushBatch_cases [of this k e w])
  case noop
  then show ?thesis using assms by simp
next
  case (success recs)
  then show ?thesis using assms by (auto simp: callsFor_afterFlushCall hasPending_def)
next
  case (failure recs error)
  then show ?thesis using assms by (auto simp: callsFor_afterFlushCall hasPending_def)
qed

lemma flushBatch_other_key:
  assumes "flushBatch e k this w = (r, this', w')" and "k' \<noteq> k"
  shows "map_of (pendingUsage this') k' = map_of (pendingUsage this) k'"
proof (cases rule: flushBatch_cases [of this k e w])
  case noop
  then show ?thesis using assms by simp
next
  case (success recs)
  then show ?thesis using assms by (auto simp: update_conv')
next
  case (failure recs error)
  then show ?thesis using assms by auto
qed

lemma flushBatch_keys:
  assumes "flushBatch e k this w = (r, this', w')"
  shows "map fst (pendingUsage this') = map fst (pendingUsage this)"
proof (cases rule: flushBatch_cases [of this k e w])
  case noop
  then show ?thesis using assms by simp
next
  case (success recs)
  from success(1) have "k \<in> set (map fst (pendingUsage this))"
    by (metis map_of_eq_None_iff option.distinct(1) set_map)
  then show ?thesis using success assms by (auto simp: update_keys)
next
  case (failure recs error)
  then show ?thesis using assms by auto
qed

lemma flushBatch_consoleErrors:
  assumes "flushBatch e k this w = (r, this', w')"
  shows "consoleErrors w' = consoleErrors w"
  by (cases rule: flushBatch_cases [of this k e w]) (use assms in \<open>auto simp: afterFlushCall_def\<close>)

lemma flushBatch_fields:
  assumes "flushBatch e k this w = (r, this', w')"
  shows "disposed this' = disposed this \<and> maxBatchSize this' = maxBatchSize this
       \<and> flushOnDispose this' = flushOnDispose this \<and> flushInterval this' = flushInterval this
       \<and> batchIntervalMs this' = batchIntervalMs this"
  by (cases rule: flushBatch_cases [of this k e w]) (use assms in auto)

lemma flushEach_callsFor:
  assumes "distinct ks" and "flushEach e ks this w = (this', w')"
  shows "callsFor k w' = callsFor k w + (if k \<in> set ks \<and> hasPending this k then 1 else 0)"
  using assms
proof (induction ks arbitrary: this w)
  case Nil
  then show ?case by simp
next
  case (Cons a ks)
  obtain r this1 w1 where fb: "flushBatch e a this w = (r, this1, w1)"
    by (metis prod_cases3)
  define w1' where "w1' = (case r of Inr _ \<Rightarrow> w1
      | Inl error \<Rightarrow> w1\<lparr>consoleErrors := consoleErrors w1 @ [(''Error flushing batch for '' @ a @ '':'', error)]\<rparr>)"
  have step: "flushEach e (a # ks) this w = flushEach e ks this1 w1'"
    by (simp add: fb w1'_def split: sum.splits)
  have c1: "callsFor k w1' = callsFor k w + (if k = a \<and> hasPending this a then 1 else 0)"
  proof -
    have "callsFor k w1' = callsFor k w1"
      by (cases r) (simp_all add: w1'_def callsFor_def)
    then show ?thesis using flushBatch_callsFor [OF fb, of k] by simp
  qed
  have ih: "callsFor k w' = callsFor k w1' + (if k \<in> set ks \<and> hasPending this1 k then 1 else 0)"
    using Cons.IH [of this1 w1'] Cons.prems step by simp
  have same: "k \<in> set ks \<Longrightarrow> hasPending this1 k = hasPending this k"
  proof -
    assume "k \<in> set ks"
    then have "k \<noteq> a" using Cons.prems(1) by auto
    then show ?thesis using flushBatch_other_key [OF fb, of k] by (simp add: hasPending_def)
  qed
  show ?case using c1 ih same Cons.prems(1) by auto
qed

lemma flushEach_other_key:
  assumes "flushEach e ks this w = (this', w')" and "k \<notin> set ks"
  shows "map_of (pendingUsage this') k = map_of (pendingUsage this) k"
  using assms
proof (induction ks arbitrary: this w)
  case Nil
  then show ?case by simp
next
  case (Cons a ks)
  obtain r this1 w1 where fb: "flushBatch e a this w = (r, this1, w1)"
    by (metis prod_cases3)
  obtain w1' where step: "flushEach e (a # ks) this w = flushEach e ks this1 w1'"
    by (cases r) (simp_all add: fb)
  have "map_of (pendingUsage this') k = map_of (pendingUsage this1) k"
    using Cons.IH [of this1 w1'] Cons.prems step by simp
  moreover have "map_of (pendingUsage this1) k = map_of (pendingUsage this) k"
    using flushBatch_other_key [OF fb, of k] Cons.prems(2) by simp
  ultimately show ?case by simp
qed

lemma flushEach_consoleErrors_mono:
  assumes "flushEach e ks this w = (this', w')"
  shows "set (consoleErrors w) \<subseteq> set (consoleErrors w')"
  using assms
proof (induction ks arbitrary: this w)
  case Nil
  then show ?case by simp
next
  case (Cons a ks)
  obtain r this1 w1 where fb: "flushBatch e a this w = (r, this1, w1)"
    by (metis prod_cases3)
  have same: "consoleErrors w1 = consoleErrors w"
    by (rule flushBatch_consoleErrors [OF fb])
  show ?case
  proof (cases r)
    case (Inl error)
    then have "flushEach e (a # ks) this w =
        flushEach e ks this1 (w1\<lparr>consoleErrors := consoleErrors w1 @ [(flushReport a, error)]\<rparr>)"
      by (simp add: fb flushReport_def)
    then show ?thesis using Cons.IH Cons.prems same by fastforce
  next
    case (Inr u)
    then have "flushEach e (a # ks) this w = flushEach e ks this1 w1"
      by (simp add: fb)
    then show ?thesis using Cons.IH Cons.prems same by fastforce
  qed
qed

lemma flushEach_outcome:
  assumes "distinct ks" and "flushEach e ks this w = (this', w')"
    and "k \<in> set ks" and "map_of (pendingUsage this) k = Some recs" and "recs \<noteq> []"
  shows "map_of (pendingUsage this') k = Some []
       \<or> (map_of (pendingUsage this') k = Some recs
          \<and> (\<exists>error. (flushReport k, error) \<in> set (consoleErrors w')))"
  using assms
proof (induction ks arbitrary: this w)
  case Nil
  then show ?case by simp
next
  case (Cons a ks)
  obtain r this1 w1 where fb: "flushBatch e a this w = (r, this1, w1)"
    by (metis prod_cases3)
  show ?case
  proof (cases "k = a")
    case False
    obtain w1' where step: "flushEach e (a # ks) this w = flushEach e ks this1 w1'"
      by (cases r) (simp_all add: fb)
    have "map_of (pendingUsage this1) k = Some recs"
      using flushBatch_other_key [OF fb, of k] False Cons.prems(4) by simp
    then show ?thesis
      using Cons.IH [of this1 w1'] Cons.prems step False by simp
  next
    case True
    have notin: "k \<notin> set ks" using Cons.prems(1) True by simp
    show ?thesis
    proof (cases rule: flushBatch_cases [of this a e w])
      case noop
      then show ?thesis using Cons.prems True by (simp add: hasPending_def)
    next
      case (success recs')
      then have step: "flushEach e (a # ks) this w =
          flushEach e ks (this\<lparr>pendingUsage := AList.update a [] (pendingUsage this)\<rparr>)
            (afterFlushCall e a recs' w)"
        by simp
      have "map_of (pendingUsage this') k =
          map_of (pendingUsage (this\<lparr>pendingUsage := AList.update a [] (pendingUsage this)\<rparr>)) k"
        using flushEach_other_key [OF _ notin] step Cons.prems(2) by metis
      then show ?thesis using True by (simp add: update_conv')
    next
      case (failure recs' error)
      let ?err = "ThrownError (newStripeApiError
                 (''Failed to flush usage records for subscription item '' @ a @ '': ''
                    @ errorMessageOf error)
                 (errorDetailsOf error) (causeOf error))"
      let ?w1 = "(afterFlushCall e a recs' w)\<lparr>consoleErrors :=
          consoleErrors (afterFlushCall e a recs' w) @ [(flushReport a, ?err)]\<rparr>"
      from failure have step: "flushEach e (a # ks) this w = flushEach e ks this ?w1"
        by (simp add: flushReport_def)
      then have rest: "flushEach e ks this ?w1 = (this', w')" using Cons.prems(2) by simp
      have "map_of (pendingUsage this') k = Some recs"
        using flushEach_other_key [OF rest notin] Cons.prems(4) by simp
      moreover have "(flushReport k, ?err) \<in> set (consoleErrors w')"
        using flushEach_consoleErrors_mono [OF rest] True by auto
      ultimately show ?thesis by blast
    qed
  qed
qed

lemma flushBatch_rejection_is_Error:
  assumes "flushBatch e k this w = (Inl error, this', w')"
  shows "recordUsage_catch error = error"
  by (cases rule: flushBatch_cases [of this k e w]) (use assms in \<open>auto simp: recordUsage_catch_def\<close>)

lemma recordUsage_resolved:
  assumes "\<not> disposed this" and "cust \<noteq> []" and "0 < amount"
    and "getSubscriptionItemId e cust = Returns k"
  shows "recordUsage e cust amount endpoint this w =
           (case afterAppend e k cust amount endpoint this w of
              (this1, w1) \<Rightarrow>
                if maxBatchSize this \<le> real (length (appended e k cust amount endpoint this w))
                then flushBatch e k this1 w1 else (Inr (), this1, w1))"
proof -
  obtain this1 w1 where aa: "afterAppend e k cust amount endpoint this w = (this1, w1)"
    by fastforce
  have same: "(case flushBatch e k this1 w1 of
                 (Inl error, this2, w3) \<Rightarrow> (Inl (recordUsage_catch error), this2, w3)
               | (Inr u, this2, w3) \<Rightarrow> (Inr u, this2, w3)) = flushBatch e k this1 w1"
  proof -
    obtain r this2 w3 where fb: "flushBatch e k this1 w1 = (r, this2, w3)"
      by (metis prod_cases3)
    show ?thesis
    proof (cases r)
      case (Inl error)
      then show ?thesis using fb flushBatch_rejection_is_Error [of e k this1 w1 error this2 w3] by simp
    next
      case (Inr u)
      then show ?thesis using fb by simp
    qed
  qed
  have upd: "AList.update k v (if map_of al k = None then AList.update k [] al else al)
      = AList.update k v al" for v and al :: "(string \<times> BatchedUsageRecord list) list"
    by simp
  have get: "(case map_of (if map_of al k = None then AList.update k [] al else al) k of
                Some records \<Rightarrow> records | None \<Rightarrow> [])
      = (case map_of al k of None \<Rightarrow> [] | Some recs \<Rightarrow> recs)"
    for al :: "(string \<times> BatchedUsageRecord list) list"
    by (simp add: update_conv' split: option.splits)
  have "recordUsage e cust amount endpoint this w =
      (if maxBatchSize this \<le> real (length (appended e k cust amount endpoint this w))
       then (case flushBatch e k this1 w1 of
                 (Inl error, this2, w3) \<Rightarrow> (Inl (recordUsage_catch error), this2, w3)
               | (Inr u, this2, w3) \<Rightarrow> (Inr u, this2, w3))
       else (Inr (), this1, w1))"
    using assms aa
    by (simp add: recordUsage_def Date_now_def afterAppend_def appended_def batchOf_def Let_def upd get)
  then show ?thesis using aa same by simp
qed

subsection \<open>Claim C1: one aggregate call per flush\<close>

text \<open>
  C1. For a key whose batch is absent or empty, \<^const>\<open>flushBatch\<close> resolves and
  changes neither the strategy nor the world: no call reaches Stripe. For a key with a
  non-empty batch it makes exactly one call, whose quantity is the sum of the
  \<^const>\<open>usageValue\<close> of every record of the batch, whose timestamp is the clock in
  whole seconds and whose action is \<^const>\<open>INCREMENT\<close>; when Stripe accepts the call,
  \<^const>\<open>flushBatch\<close> resolves and the batch of the key is empty, nothing else of the
  strategy being changed.
\<close>

theorem flushBatch_one_aggregate_call:
  "(map_of (pendingUsage this) k = None \<or> map_of (pendingUsage this) k = Some []
      \<longrightarrow> flushBatch e k this w = (Inr (), this, w))
   \<and> (map_of (pendingUsage this) k = Some recs \<and> recs \<noteq> [] \<longrightarrow>
        usageRecordCalls (snd (snd (flushBatch e k this w)))
          = usageRecordCalls w
              @ [\<lparr>subscription_item = k, quantity = sum_list (map usageValue recs),
                  timestamp_seconds = dateNow e (clockReads w) div 1000, action = INCREMENT\<rparr>]
        \<and> (createUsageRecord e (usageRecordCalls w)
               \<lparr>subscription_item = k, quantity = sum_list (map usageValue recs),
                timestamp_seconds = dateNow e (clockReads w) div 1000, action = INCREMENT\<rparr> = None
             \<longrightarrow> fst (flushBatch e k this w) = Inr ()
               \<and> fst (snd (flushBatch e k this w))
                   = this\<lparr>pendingUsage := AList.update k [] (pendingUsage this)\<rparr>
               \<and> map_of (pendingUsage (fst (snd (flushBatch e k this w)))) k = Some []))"
proof (intro conjI impI)
  assume "map_of (pendingUsage this) k = None \<or> map_of (pendingUsage this) k = Some []"
  then show "flushBatch e k this w = (Inr (), this, w)"
    using flushBatch_absent flushBatch_empty by blast
next
  assume pending: "map_of (pendingUsage this) k = Some recs \<and> recs \<noteq> []"
  show "usageRecordCalls (snd (snd (flushBatch e k this w)))
          = usageRecordCalls w
              @ [\<lparr>subscription_item = k, quantity = sum_list (map usageValue recs),
                  timestamp_seconds = dateNow e (clockReads w) div 1000, action = INCREMENT\<rparr>]"
  proof (cases "createUsageRecord e (usageRecordCalls w) (flushCall e k recs w)")
    case None
    then show ?thesis
      using pending flushBatch_success [of this k recs e w]
      by (simp add: afterFlushCall_def flushCall_def)
  next
    case (Some error)
    then show ?thesis
      using pending flushBatch_failure [of this k recs e w error]
      by (simp add: afterFlushCall_def flushCall_def)
  qed
next
  assume pending: "map_of (pendingUsage this) k = Some recs \<and> recs \<noteq> []"
    and accepted: "createUsageRecord e (usageRecordCalls w)
               \<lparr>subscription_item = k, quantity = sum_list (map usageValue recs),
                timestamp_seconds = dateNow e (clockReads w) div 1000, action = INCREMENT\<rparr> = None"
  have fb: "flushBatch e k this w =
           (Inr (), this\<lparr>pendingUsage := AList.update k [] (pendingUsage this)\<rparr>,
            afterFlushCall e k recs w)"
    using pending accepted flushBatch_success [of this k recs e w] by (simp add: flushCall_def)
  show "fst (flushBatch e k this w) = Inr ()" by (simp add: fb)
  show "fst (snd (flushBatch e k this w))
          = this\<lparr>pendingUsage := AList.update k [] (pendingUsage this)\<rparr>" by (simp add: fb)
  show "map_of (pendingUsage (fst (snd (flushBatch e k this w)))) k = Some []"
    by (simp add: fb update_conv')
qed

text \<open>
  The scenario of the specification: three records of usage 1 under \<^verbatim>\<open>si_1\<close> are
  flushed as one call of quantity 3, and a key without a batch is flushed with no call.
\<close>

theorem flushBatch_one_aggregate_call_witness:
  "flushBatch example_env ''si_empty'' example_strategy example_world
     = (Inr (), example_strategy, example_world)
   \<and> usageRecordCalls (snd (snd (flushBatch example_env ''si_1''
        (example_strategy\<lparr>pendingUsage :=
           [(''si_1'', [example_record 1, example_record 1, example_record 1])]\<rparr>) example_world)))
       = [\<lparr>subscription_item = ''si_1'', quantity = 3, timestamp_seconds = 1700000000,
           action = INCREMENT\<rparr>]
   \<and> fst (flushBatch example_env ''si_1''
        (example_strategy\<lparr>pendingUsage :=
           [(''si_1'', [example_record 1, example_record 1, example_record 1])]\<rparr>) example_world)
       = Inr ()
   \<and> pendingUsage (fst (snd (flushBatch example_env ''si_1''
        (example_strategy\<lparr>pendingUsage :=
           [(''si_1'', [example_record 1, example_record 1, example_record 1])]\<rparr>) example_world)))
       = [(''si_1'', [])]"
  using flushBatch_one_aggregate_call [where this = example_strategy and k = "''si_empty''"
      and e = example_env and w = example_world]
    flushBatch_one_aggregate_call [where
      this = "example_strategy\<lparr>pendingUsage :=
           [(''si_1'', [example_record 1, example_record 1, example_record 1])]\<rparr>"
      and k = "''si_1''" and recs = "[example_record 1, example_record 1, example_record 1]"
      and e = example_env and w = example_world]
  by (simp add: example_strategy_def example_world_def example_env_def example_record_def)

subsection \<open>Claim C2: a failed flush keeps the batch\<close>

text \<open>
  C2. When Stripe rejects the call a flush makes, \<^const>\<open>flushBatch\<close> rejects with a
  \<^const>\<open>StripeApiError\<close> whose cause is the value caught (the \<^verbatim>\<open>Error\<close> itself, or a
  new \<^verbatim>\<open>Error\<close> of its string form when something else was thrown) and whose message
  names the key and repeats the message of the cause; the strategy, and so the batch of
  the key, is exactly what it was before the call.
\<close>

theorem flushBatch_failure_keeps_batch:
  assumes "map_of (pendingUsage this) k = Some recs" and "recs \<noteq> []"
    and "createUsageRecord e (usageRecordCalls w) (flushCall e k recs w) = Some error"
  shows "\<exists>err. flushBatch e k this w = (Inl (ThrownError err), this, afterFlushCall e k recs w)
           \<and> errorClass err = StripeApiError
           \<and> cause err = Some (causeOf error)
           \<and> (\<forall>original. error = ThrownError original \<longrightarrow> cause err = Some original)
           \<and> message err = ''Failed to flush usage records for subscription item '' @ k @ '': ''
                              @ errorMessageOf error
           \<and> map_of (pendingUsage (fst (snd (flushBatch e k this w)))) k = Some recs"
proof -
  let ?err = "newStripeApiError
                (''Failed to flush usage records for subscription item '' @ k @ '': ''
                   @ errorMessageOf error)
                (errorDetailsOf error) (causeOf error)"
  have fb: "flushBatch e k this w = (Inl (ThrownError ?err), this, afterFlushCall e k recs w)"
    using assms by (rule flushBatch_failure)
  have "errorClass ?err = StripeApiError"
    by (simp add: newStripeApiError_def split: option.splits)
  moreover have "cause ?err = Some (causeOf error)"
    by (simp add: newStripeApiError_def split: option.splits)
  moreover have "\<forall>original. error = ThrownError original \<longrightarrow> cause ?err = Some original"
    by (simp add: newStripeApiError_def causeOf_def split: option.splits)
  moreover have "message ?err = ''Failed to flush usage records for subscription item '' @ k @ '': ''
                              @ errorMessageOf error"
    by (simp add: newStripeApiError_def split: option.splits)
  moreover have "map_of (pendingUsage (fst (snd (flushBatch e k this w)))) k = Some recs"
    using assms(1) by (simp add: fb)
  ultimately show ?thesis using fb by blast
qed

text \<open>The mock of the test suite rejects every call for \<^verbatim>\<open>si_error\<close>.\<close>

theorem flushBatch_failure_keeps_batch_witness:
  "\<exists>err. flushBatch example_env ''si_error''
            (example_strategy\<lparr>pendingUsage := [(''si_error'', [example_record 1])]\<rparr>) example_world
          = (Inl (ThrownError err),
             example_strategy\<lparr>pendingUsage := [(''si_error'', [example_record 1])]\<rparr>,
             example_world\<lparr>clockReads := 1, usageRecordCalls :=
               [\<lparr>subscription_item = ''si_error'', quantity = 1, timestamp_seconds = 1700000000,
                 action = INCREMENT\<rparr>]\<rparr>)
        \<and> errorClass err = StripeApiError
        \<and> cause err = Some (newError ''Stripe API error'')
        \<and> message err = ''Failed to flush usage records for subscription item si_error: Stripe API error''"
proof -
  let ?s = "example_strategy\<lparr>pendingUsage := [(''si_error'', [example_record 1])]\<rparr>"
  have pending: "map_of (pendingUsage ?s) ''si_error'' = Some [example_record 1]"
    by simp
  have nonempty: "[example_record 1] \<noteq> []"
    by simp
  have rejected: "createUsageRecord example_env (usageRecordCalls example_world)
      (flushCall example_env ''si_error'' [example_record 1] example_world)
        = Some (ThrownError (newError ''Stripe API error''))"
    by (simp add: example_env_def flushCall_def)
  obtain err where
    "flushBatch example_env ''si_error'' ?s example_world
       = (Inl (ThrownError err), ?s,
          afterFlushCall example_env ''si_error'' [example_record 1] example_world)"
    and "errorClass err = StripeApiError"
    and "cause err = Some (causeOf (ThrownError (newError ''Stripe API error'')))"
    and "message err = ''Failed to flush usage records for subscription item '' @ ''si_error''
           @ '': '' @ errorMessageOf (ThrownError (newError ''Stripe API error''))"
    using flushBatch_failure_keeps_batch [OF pending nonempty rejected] by blast
  then show ?thesis
    by (intro exI [of _ err])
      (simp add: afterFlushCall_def flushCall_def example_world_def example_env_def
        example_record_def causeOf_def errorMessageOf_def newError_def)
qed

subsection \<open>Claim C7: invalid input is rejected before anything happens\<close>

text \<open>
  C7. On a strategy that is not disposed, \<^const>\<open>recordUsage\<close> with an empty customer
  id or with a usage value that is zero or negative rejects with an
  \<^const>\<open>InvalidInputError\<close>, and returns the strategy and the world it was given: the
  batches are unchanged, and neither the resolver nor Stripe has been called.
\<close>

theorem recordUsage_rejects_invalid_input:
  assumes "\<not> disposed this" and "cust = [] \<or> amount \<le> 0"
  shows "recordUsage e cust amount endpoint this w
           = (Inl (ThrownError (newInvalidInputError
                 (if cust = [] then ''Customer ID is required''
                  else ''Usage value must be greater than zero''))), this, w)
         \<and> errorClass (newInvalidInputError
                 (if cust = [] then ''Customer ID is required''
                  else ''Usage value must be greater than zero'')) = InvalidInputError"
  using assms by (auto simp: recordUsage_def newInvalidInputError_def)

text \<open>The two rejections of the specification: \<^verbatim>\<open>recordUsage('', 1)\<close> and \<^verbatim>\<open>recordUsage('cus_x', 0)\<close>.\<close>

theorem recordUsage_rejects_invalid_input_witness:
  "recordUsage example_env [] 1 None example_strategy example_world
     = (Inl (ThrownError (newInvalidInputError ''Customer ID is required'')),
        example_strategy, example_world)
   \<and> recordUsage example_env ''cus_x'' 0 None example_strategy example_world
     = (Inl (ThrownError (newInvalidInputError ''Usage value must be greater than zero'')),
        example_strategy, example_world)"
  using recordUsage_rejects_invalid_input [where this = example_strategy and cust = "[]"
      and amount = 1 and e = example_env and endpoint = None and w = example_world]
    recordUsage_rejects_invalid_input [where this = example_strategy and cust = "''cus_x''"
      and amount = 0 and e = example_env and endpoint = None and w = example_world]
  by (simp add: example_strategy_def)

subsection \<open>Claim C10: a configured zero is replaced by the default\<close>

text \<open>
  C10. The constructor builds the same strategy, with the same effects, from a
  configuration whose \<^verbatim>\<open>maxBatchSize\<close> (or \<^verbatim>\<open>batchIntervalMs\<close>) is 0 as from the one
  where it is absent: with a Stripe key, a \<^verbatim>\<open>maxBatchSize\<close> of 0 gives the threshold 100
  and a \<^verbatim>\<open>batchIntervalMs\<close> of 0 gives the interval 60000, which is the one the timer
  is armed with.
\<close>

theorem zero_in_config_is_absent:
  "newBatchedUsageRecordStrategy (config\<lparr>config_maxBatchSize := Some 0\<rparr>) w
     = newBatchedUsageRecordStrategy (config\<lparr>config_maxBatchSize := None\<rparr>) w
   \<and> newBatchedUsageRecordStrategy (config\<lparr>config_batchIntervalMs := Some 0\<rparr>) w
     = newBatchedUsageRecordStrategy (config\<lparr>config_batchIntervalMs := None\<rparr>) w
   \<and> (stripeApiKey config \<noteq> [] \<and> config_maxBatchSize config = Some 0 \<longrightarrow>
        (\<exists>this w'. newBatchedUsageRecordStrategy config w = (Inr this, w')
                  \<and> maxBatchSize this = 100))
   \<and> (stripeApiKey config \<noteq> [] \<and> config_batchIntervalMs config = Some 0 \<longrightarrow>
        (\<exists>this w'. newBatchedUsageRecordStrategy config w = (Inr this, w')
                  \<and> batchIntervalMs this = 60000
                  \<and> setIntervalCalls w' = setIntervalCalls w @ [60000]))"
  by (simp add: newBatchedUsageRecordStrategy_def orDefault_def Let_def)

text \<open>The configuration of the test suite with both numbers set to 0.\<close>

theorem zero_in_config_is_absent_witness:
  "stripeApiKey (example_config\<lparr>config_maxBatchSize := Some 0, config_batchIntervalMs := Some 0\<rparr>) \<noteq> []
   \<and> (\<exists>this w'. newBatchedUsageRecordStrategy
          (example_config\<lparr>config_maxBatchSize := Some 0, config_batchIntervalMs := Some 0\<rparr>)
          example_world = (Inr this, w')
        \<and> maxBatchSize this = 100)
   \<and> (\<exists>this w'. newBatchedUsageRecordStrategy
          (example_config\<lparr>config_maxBatchSize := Some 0, config_batchIntervalMs := Some 0\<rparr>)
          example_world = (Inr this, w')
        \<and> batchIntervalMs this = 60000 \<and> setIntervalCalls w' = [60000])"
  using zero_in_config_is_absent [where
      config = "example_config\<lparr>config_maxBatchSize := Some 0, config_batchIntervalMs := Some 0\<rparr>"
      and w = example_world, THEN conjunct2, THEN conjunct2]
  by (simp add: example_config_def example_world_def)

subsection \<open>Sweeping all batches\<close>

lemma flushEach_keys:
  assumes "flushEach e ks this w = (this', w')"
  shows "map fst (pendingUsage this') = map fst (pendingUsage this)"
  using assms
proof (induction ks arbitrary: this w)
  case Nil
  then show ?case by simp
next
  case (Cons a ks)
  obtain r this1 w1 where fb: "flushBatch e a this w = (r, this1, w1)"
    by (metis prod_cases3)
  obtain w1' where step: "flushEach e (a # ks) this w = flushEach e ks this1 w1'"
    by (cases r) (simp_all add: fb)
  then show ?case
    using Cons.IH [of this1 w1'] Cons.prems flushBatch_keys [OF fb] by simp
qed

lemma flushEach_fields:
  assumes "flushEach e ks this w = (this', w')"
  shows "disposed this' = disposed this \<and> maxBatchSize this' = maxBatchSize this
       \<and> flushOnDispose this' = flushOnDispose this \<and> flushInterval this' = flushInterval this
       \<and> batchIntervalMs this' = batchIntervalMs this"
  using assms
proof (induction ks arbitrary: this w)
  case Nil
  then show ?case by simp
next
  case (Cons a ks)
  obtain r this1 w1 where fb: "flushBatch e a this w = (r, this1, w1)"
    by (metis prod_cases3)
  obtain w1' where step: "flushEach e (a # ks) this w = flushEach e ks this1 w1'"
    by (cases r) (simp_all add: fb)
  then show ?case
    using Cons.IH [of this1 w1'] Cons.prems flushBatch_fields [OF fb] by simp
qed

lemma flushBatch_accepted:
  assumes "\<forall>previous call. subscription_item call = k \<longrightarrow> createUsageRecord e previous call = None"
    and "map_of (pendingUsage this) k = Some recs"
    and "flushBatch e k this w = (r, this', w')"
  shows "map_of (pendingUsage this') k = Some []"
proof (cases "recs = []")
  case True
  then show ?thesis using assms flushBatch_empty [of this k e w] by simp
next
  case False
  have "createUsageRecord e (usageRecordCalls w) (flushCall e k recs w) = None"
    using assms(1) by (simp add: flushCall_def)
  then show ?thesis
    using flushBatch_success [OF assms(2) False, of e w] assms(3) by (auto simp: update_conv')
qed

lemma flushEach_accepted:
  assumes "\<forall>previous call. subscription_item call = k \<longrightarrow> createUsageRecord e previous call = None"
    and "distinct ks" and "k \<in> set ks"
    and "map_of (pendingUsage this) k = Some recs"
    and "flushEach e ks this w = (this', w')"
  shows "map_of (pendingUsage this') k = Some []"
  using assms(2-)
proof (induction ks arbitrary: this w)
  case Nil
  then show ?case by simp
next
  case (Cons a ks)
  obtain r this1 w1 where fb: "flushBatch e a this w = (r, this1, w1)"
    by (metis prod_cases3)
  obtain w1' where step: "flushEach e (a # ks) this w = flushEach e ks this1 w1'"
    by (cases r) (simp_all add: fb)
  then have rest: "flushEach e ks this1 w1' = (this', w')"
    using Cons.prems by simp
  show ?case
  proof (cases "k = a")
    case True
    then have "k \<notin> set ks" using Cons.prems(1) by simp
    then have "map_of (pendingUsage this') k = map_of (pendingUsage this1) k"
      using flushEach_other_key [OF rest] by simp
    then show ?thesis
      using flushBatch_accepted [OF assms(1) Cons.prems(3)] fb True by simp
  next
    case False
    then have "map_of (pendingUsage this1) k = Some recs"
      using flushBatch_other_key [OF fb, of k] Cons.prems(3) by simp
    then show ?thesis
      using Cons.IH [OF _ _ _ rest] Cons.prems False by simp
  qed
qed

lemma flushAllBatches_flushEach:
  "flushAllBatches e this w = (r, this', w')
     \<longleftrightarrow> r = Inr () \<and> flushEach e (map fst (pendingUsage this)) this w = (this', w')"
  by (auto simp: flushAllBatches_def Let_def split: prod.splits)

lemma map_of_Some_key: "map_of al k = Some v \<Longrightarrow> k \<in> set (map fst al)"
  by (metis map_of_eq_None_iff option.distinct(1) set_map)

lemma hasPending_key: "hasPending this k \<Longrightarrow> k \<in> set (map fst (pendingUsage this))"
proof -
  assume "hasPending this k"
  then obtain recs where "map_of (pendingUsage this) k = Some recs"
    by (auto simp: hasPending_def split: option.splits)
  then show ?thesis by (rule map_of_Some_key)
qed

subsection \<open>Claim C3: the sweep attempts every key and swallows every failure\<close>

text \<open>
  C3. \<^const>\<open>flushAllBatches\<close> always resolves, whatever Stripe answers. On a store
  whose keys are distinct (as the keys of a \<^verbatim>\<open>Map\<close> are) it leaves the keys as they
  were and, for every key, makes exactly one call to Stripe if the key had a non-empty
  batch when the sweep started and none otherwise, whatever happened to the other keys.
  A non-empty batch is afterwards either empty, or unchanged with the failure written
  to \<^verbatim>\<open>console.error\<close> under the key's name; a key whose calls Stripe accepts is
  emptied even when the flushes of other keys fail.
\<close>

theorem flushAllBatches_attempts_every_key:
  assumes "distinct (map fst (pendingUsage this))"
    and "flushAllBatches e this w = (r, this', w')"
  shows "r = Inr ()
       \<and> map fst (pendingUsage this') = map fst (pendingUsage this)
       \<and> callsFor k w' = callsFor k w + (if hasPending this k then 1 else 0)
       \<and> (map_of (pendingUsage this) k = Some recs \<and> recs \<noteq> [] \<longrightarrow>
            map_of (pendingUsage this') k = Some []
            \<or> (map_of (pendingUsage this') k = Some recs
               \<and> (\<exists>error. (flushReport k, error) \<in> set (consoleErrors w'))))
       \<and> (map_of (pendingUsage this) k = Some recs
            \<and> (\<forall>previous call. subscription_item call = k
                  \<longrightarrow> createUsageRecord e previous call = None)
            \<longrightarrow> map_of (pendingUsage this') k = Some [])"
proof -
  let ?ks = "map fst (pendingUsage this)"
  have res: "r = Inr ()" and each: "flushEach e ?ks this w = (this', w')"
    using assms(2) by (simp_all add: flushAllBatches_flushEach)
  have keys: "map fst (pendingUsage this') = ?ks"
    by (rule flushEach_keys [OF each])
  have "callsFor k w' = callsFor k w + (if k \<in> set ?ks \<and> hasPending this k then 1 else 0)"
    by (rule flushEach_callsFor [OF assms(1) each])
  then have calls: "callsFor k w' = callsFor k w + (if hasPending this k then 1 else 0)"
    using hasPending_key [of this k] by auto
  have outcome: "map_of (pendingUsage this') k = Some []
            \<or> (map_of (pendingUsage this') k = Some recs
               \<and> (\<exists>error. (flushReport k, error) \<in> set (consoleErrors w')))"
    if "map_of (pendingUsage this) k = Some recs \<and> recs \<noteq> []"
    using flushEach_outcome [OF assms(1) each, of k recs] that map_of_Some_key [of "pendingUsage this" k recs]
    by blast
  have accepted: "map_of (pendingUsage this') k = Some []"
    if "map_of (pendingUsage this) k = Some recs
            \<and> (\<forall>previous call. subscription_item call = k
                  \<longrightarrow> createUsageRecord e previous call = None)"
    using flushEach_accepted [OF _ assms(1) _ _ each, of k recs] that
      map_of_Some_key [of "pendingUsage this" k recs]
    by blast
  show ?thesis using res keys calls outcome accepted by blast
qed

text \<open>
  The sweep of the test suite: the flush of \<^verbatim>\<open>si_error\<close> fails first, and \<^verbatim>\<open>si_123\<close>
  is still flushed, each with one call.
\<close>

theorem flushAllBatches_attempts_every_key_witness:
  "distinct (map fst (pendingUsage example_two_batches))
   \<and> fst (flushAllBatches example_env example_two_batches example_world) = Inr ()
   \<and> callsFor ''si_error''
         (snd (snd (flushAllBatches example_env example_two_batches example_world))) = 1
   \<and> callsFor ''si_123''
         (snd (snd (flushAllBatches example_env example_two_batches example_world))) = 1
   \<and> map_of (pendingUsage
         (fst (snd (flushAllBatches example_env example_two_batches example_world)))) ''si_123''
       = Some []"
proof -
  obtain r this' w' where
    sweep: "flushAllBatches example_env example_two_batches example_world = (r, this', w')"
    by (metis prod_cases3)
  have keys: "distinct (map fst (pendingUsage example_two_batches))"
    by (simp add: example_two_batches_def)
  have pending: "map_of (pendingUsage example_two_batches) ''si_123''
      = Some [example_record 1, example_record 1]"
    by (simp add: example_two_batches_def)
  have accepts: "\<forall>previous call. subscription_item call = ''si_123''
      \<longrightarrow> createUsageRecord example_env previous call = None"
    by (simp add: example_env_def)
  have none_before: "callsFor k example_world = 0" for k
    by (simp add: callsFor_def example_world_def)
  have "hasPending example_two_batches ''si_error''"
    and "hasPending example_two_batches ''si_123''"
    by (simp_all add: hasPending_def example_two_batches_def)
  then have "callsFor ''si_error'' w' = 1" and "callsFor ''si_123'' w' = 1"
    using flushAllBatches_attempts_every_key [OF keys sweep, of "''si_error''"]
      flushAllBatches_attempts_every_key [OF keys sweep, of "''si_123''"] none_before
    by simp_all
  moreover have "r = Inr ()"
    using flushAllBatches_attempts_every_key [OF keys sweep] by simp
  moreover have "map_of (pendingUsage this') ''si_123'' = Some []"
    using flushAllBatches_attempts_every_key [OF keys sweep,
        of "''si_123''" "[example_record 1, example_record 1]"] pending accepts
    by blast
  ultimately show ?thesis using keys sweep by simp
qed

subsection \<open>Claim C5: disposal always completes, and only once\<close>

lemma dispose_with_disposed:
  "disposed this \<Longrightarrow> dispose_with sweep this w = (Inr (), this, w)"
  by (simp add: dispose_with_def)

lemma dispose_with_resolves:
  "fst (dispose_with sweep this w) = Inr ()"
  by (simp add: dispose_with_def Let_def split: prod.splits option.splits sum.splits)

lemma dispose_with_marks_disposed:
  "disposed (fst (snd (dispose_with sweep this w)))"
  by (simp add: dispose_with_def Let_def split: prod.splits option.splits sum.splits)

lemma dispose_with_reports:
  assumes "\<not> disposed this" and "flushOnDispose this" and "flushInterval this = Some handle"
    and "sweep (this\<lparr>flushInterval := None\<rparr>)
           (w\<lparr>clearIntervalCalls := clearIntervalCalls w @ [handle]\<rparr>) = (Inl error, this1, w1)"
  shows "dispose_with sweep this w =
           (Inr (), this1\<lparr>disposed := True\<rparr>,
            w1\<lparr>consoleErrors := consoleErrors w1
                  @ [(''Error flushing batches during disposal:'', error)]\<rparr>)"
  using assms by (simp add: dispose_with_def)

text \<open>
  C5. \<^const>\<open>dispose\<close> always resolves and always leaves the strategy disposed, for
  every sweep it could await: when the sweep rejects, the rejection is written to
  \<^verbatim>\<open>console.error\<close> and \<^const>\<open>dispose\<close> still resolves with the strategy disposed. A
  second \<^const>\<open>dispose\<close> returns the strategy and the world of the first unchanged: it
  calls neither Stripe nor \<^verbatim>\<open>clearInterval\<close>.
\<close>

theorem dispose_always_completes:
  "fst (dispose_with sweep this w) = Inr ()
   \<and> disposed (fst (snd (dispose_with sweep this w)))
   \<and> (\<not> disposed this \<and> flushOnDispose this \<and> flushInterval this = Some handle
        \<and> sweep (this\<lparr>flushInterval := None\<rparr>)
             (w\<lparr>clearIntervalCalls := clearIntervalCalls w @ [handle]\<rparr>) = (Inl error, this1, w1)
      \<longrightarrow> dispose_with sweep this w =
            (Inr (), this1\<lparr>disposed := True\<rparr>,
             w1\<lparr>consoleErrors := consoleErrors w1
                   @ [(''Error flushing batches during disposal:'', error)]\<rparr>))
   \<and> fst (dispose e this w) = Inr ()
   \<and> disposed (fst (snd (dispose e this w)))
   \<and> dispose e (fst (snd (dispose e this w))) (snd (snd (dispose e this w)))
       = (Inr (), fst (snd (dispose e this w)), snd (snd (dispose e this w)))"
  using dispose_with_reports [of this handle sweep w error this1 w1]
  by (simp add: dispose_with_resolves dispose_with_marks_disposed dispose_def dispose_with_disposed)

text \<open>
  Disposal while the flush of \<^verbatim>\<open>si_error\<close> fails, disposal with a sweep that rejects, and
  a second disposal.
\<close>

theorem dispose_always_completes_witness:
  "fst (dispose example_env example_two_batches example_world) = Inr ()
   \<and> disposed (fst (snd (dispose example_env example_two_batches example_world)))
   \<and> dispose_with example_rejecting_sweep example_strategy example_world
       = (Inr (), example_strategy\<lparr>flushInterval := None, disposed := True\<rparr>,
          example_world\<lparr>clearIntervalCalls := [0],
            consoleErrors := [(''Error flushing batches during disposal:'',
                               ThrownError (newError ''Flush error''))]\<rparr>)
   \<and> dispose example_env
         (fst (snd (dispose example_env example_two_batches example_world)))
         (snd (snd (dispose example_env example_two_batches example_world)))
       = (Inr (), fst (snd (dispose example_env example_two_batches example_world)),
          snd (snd (dispose example_env example_two_batches example_world)))"
proof -
  have active: "\<not> disposed example_strategy" and flush: "flushOnDispose example_strategy"
    and timer: "flushInterval example_strategy = Some 0"
    by (simp_all add: example_strategy_def)
  have rejects: "example_rejecting_sweep (example_strategy\<lparr>flushInterval := None\<rparr>)
      (example_world\<lparr>clearIntervalCalls := clearIntervalCalls example_world @ [0]\<rparr>)
      = (Inl (ThrownError (newError ''Flush error'')), example_strategy\<lparr>flushInterval := None\<rparr>,
         example_world\<lparr>clearIntervalCalls := clearIntervalCalls example_world @ [0]\<rparr>)"
    by (simp add: example_rejecting_sweep_def)
  show ?thesis
    using dispose_always_completes [where sweep = example_rejecting_sweep
        and this = example_strategy and w = example_world and handle = 0
        and error = "ThrownError (newError ''Flush error'')"
        and ?this1.0 = "example_strategy\<lparr>flushInterval := None\<rparr>"
        and ?w1.0 = "example_world\<lparr>clearIntervalCalls := clearIntervalCalls example_world @ [0]\<rparr>"
        and e = example_env]
      dispose_always_completes [where this = example_two_batches and w = example_world
        and e = example_env and sweep = example_rejecting_sweep]
      active flush timer rejects
    by (simp add: example_world_def)
qed

subsection \<open>Claim C6: a disposed strategy stays disposed\<close>

lemma recordUsage_disposed:
  "disposed this \<Longrightarrow> recordUsage e cust amount endpoint this w = (Inl lifecycleError, this, w)"
  by (simp add: recordUsage_def lifecycleError_def)

lemma dispose_disposed:
  "disposed this \<Longrightarrow> dispose e this w = (Inr (), this, w)"
  by (simp add: dispose_def dispose_with_disposed)

lemma intervalCallback_disposed:
  assumes "intervalCallback e this w = (r, this', w')"
  shows "disposed this' = disposed this"
proof -
  obtain r1 this1 w1 where sweep: "flushAllBatches e this w = (r1, this1, w1)"
    by (metis prod_cases3)
  then have "flushEach e (map fst (pendingUsage this)) this w = (this1, w1)"
    by (simp add: flushAllBatches_flushEach)
  then have "disposed this1 = disposed this"
    using flushEach_fields by blast
  moreover have "this' = this1"
    using assms sweep by (cases r1) (simp_all add: intervalCallback_def)
  ultimately show ?thesis by simp
qed

lemma batched_step_disposed:
  assumes "disposed this" and "batched_step e ev this w = (r, this', w')"
  shows "disposed this' \<and> (isRecordUsage ev \<longrightarrow> r = Inl lifecycleError)"
proof (cases ev)
  case (RecordUsage cust amount endpoint)
  then show ?thesis using assms by (simp add: recordUsage_disposed)
next
  case Dispose
  then show ?thesis using assms by (simp add: dispose_disposed)
next
  case TimerTick
  then show ?thesis using assms intervalCallback_disposed [of e this w r this' w'] by simp
qed

lemma batched_run_disposed:
  assumes "disposed this" and "batched_run e evs this w = (trace, this', w')"
  shows "disposed this' \<and> map fst trace = evs
       \<and> (\<forall>(ev, r) \<in> set trace. isRecordUsage ev \<longrightarrow> r = Inl lifecycleError)"
  using assms
proof (induction evs arbitrary: this w trace this' w')
  case Nil
  then show ?case by simp
next
  case (Cons ev evs)
  obtain r this1 w1 where step: "batched_step e ev this w = (r, this1, w1)"
    by (metis prod_cases3)
  obtain rs this2 w2 where rest: "batched_run e evs this1 w1 = (rs, this2, w2)"
    by (metis prod_cases3)
  have first: "disposed this1 \<and> (isRecordUsage ev \<longrightarrow> r = Inl lifecycleError)"
    using batched_step_disposed [OF Cons.prems(1) step] .
  then have ih: "disposed this2 \<and> map fst rs = evs
       \<and> (\<forall>(ev, r) \<in> set rs. isRecordUsage ev \<longrightarrow> r = Inl lifecycleError)"
    using Cons.IH [OF _ rest] by simp
  have "trace = (ev, r) # rs" and "this' = this2"
    using Cons.prems(2) step rest by simp_all
  then show ?case using first ih by simp
qed

lemma immediate_step_disposed:
  assumes "immediate_disposed this" and "immediate_step e ev this w = (r, this', w')"
  shows "immediate_disposed this' \<and> (isImmediateRecordUsage ev \<longrightarrow> r = Inl lifecycleError)"
  using assms
  by (cases ev) (auto simp: immediate_recordUsage_def immediate_dispose_def lifecycleError_def)

lemma immediate_run_disposed:
  assumes "immediate_disposed this" and "immediate_run e evs this w = (trace, this', w')"
  shows "immediate_disposed this' \<and> map fst trace = evs
       \<and> (\<forall>(ev, r) \<in> set trace. isImmediateRecordUsage ev \<longrightarrow> r = Inl lifecycleError)"
  using assms
proof (induction evs arbitrary: this w trace this' w')
  case Nil
  then show ?case by simp
next
  case (Cons ev evs)
  obtain r this1 w1 where step: "immediate_step e ev this w = (r, this1, w1)"
    by (metis prod_cases3)
  obtain rs this2 w2 where rest: "immediate_run e evs this1 w1 = (rs, this2, w2)"
    by (metis prod_cases3)
  have first: "immediate_disposed this1 \<and> (isImmediateRecordUsage ev \<longrightarrow> r = Inl lifecycleError)"
    using immediate_step_disposed [OF Cons.prems(1) step] .
  then have ih: "immediate_disposed this2 \<and> map fst rs = evs
       \<and> (\<forall>(ev, r) \<in> set rs. isImmediateRecordUsage ev \<longrightarrow> r = Inl lifecycleError)"
    using Cons.IH [OF _ rest] by simp
  have "trace = (ev, r) # rs" and "this' = this2"
    using Cons.prems(2) step rest by simp_all
  then show ?case using first ih by simp
qed

text \<open>
  C6. After \<^const>\<open>dispose\<close> has resolved, on any strategy and whatever it did, every
  run of further events (calls of \<^verbatim>\<open>recordUsage\<close> with any arguments, further disposals,
  ticks of the timer) ends in a disposed strategy, and every \<^verbatim>\<open>recordUsage\<close> of the run,
  as any \<^verbatim>\<open>recordUsage\<close> after it, rejects with the error "Strategy has been disposed and
  cannot record usage" and changes nothing. The same holds of the immediate strategy.
\<close>

theorem disposed_is_terminal:
  assumes "dispose e this w = (r0, this0, w0)"
    and "batched_run e evs this0 w0 = (trace, this', w')"
    and "immediate_dispose ithis iw = (ir0, ithis0, iw0)"
    and "immediate_run e ievs ithis0 iw0 = (itrace, ithis', iw')"
  shows "r0 = Inr () \<and> disposed this0 \<and> disposed this' \<and> map fst trace = evs
       \<and> (\<forall>(ev, r) \<in> set trace. isRecordUsage ev \<longrightarrow> r = Inl lifecycleError)
       \<and> recordUsage e cust amount endpoint this' w' = (Inl lifecycleError, this', w')
       \<and> ir0 = Inr () \<and> immediate_disposed ithis0 \<and> immediate_disposed ithis'
       \<and> map fst itrace = ievs
       \<and> (\<forall>(ev, r) \<in> set itrace. isImmediateRecordUsage ev \<longrightarrow> r = Inl lifecycleError)
       \<and> immediate_recordUsage e cust amount endpoint ithis' iw' = (Inl lifecycleError, ithis', iw')"
proof -
  have "r0 = Inr ()" and d0: "disposed this0"
    using assms(1) dispose_with_resolves [of "flushAllBatches e" this w]
      dispose_with_marks_disposed [of "flushAllBatches e" this w]
    by (simp_all add: dispose_def)
  moreover have run: "disposed this' \<and> map fst trace = evs
       \<and> (\<forall>(ev, r) \<in> set trace. isRecordUsage ev \<longrightarrow> r = Inl lifecycleError)"
    by (rule batched_run_disposed [OF d0 assms(2)])
  moreover have "recordUsage e cust amount endpoint this' w' = (Inl lifecycleError, this', w')"
    using run by (simp add: recordUsage_disposed)
  moreover have "ir0 = Inr ()" and i0: "immediate_disposed ithis0"
    using assms(3) by (auto simp: immediate_dispose_def)
  moreover have irun: "immediate_disposed ithis' \<and> map fst itrace = ievs
       \<and> (\<forall>(ev, r) \<in> set itrace. isImmediateRecordUsage ev \<longrightarrow> r = Inl lifecycleError)"
    by (rule immediate_run_disposed [OF i0 assms(4)])
  moreover have
    "immediate_recordUsage e cust amount endpoint ithis' iw' = (Inl lifecycleError, ithis', iw')"
    using irun by (simp add: immediate_recordUsage_def lifecycleError_def)
  ultimately show ?thesis by blast
qed

text \<open>
  Both strategies disposed while usage is pending, then used again: the two
  \<^verbatim>\<open>recordUsage\<close> of each run are rejected.
\<close>

theorem disposed_is_terminal_witness:
  "disposed (fst (snd (batched_run example_env example_events
       (fst (snd (dispose example_env example_two_batches example_world)))
       (snd (snd (dispose example_env example_two_batches example_world))))))
   \<and> map snd (filter (\<lambda>p. isRecordUsage (fst p)) (fst (batched_run example_env example_events
       (fst (snd (dispose example_env example_two_batches example_world)))
       (snd (snd (dispose example_env example_two_batches example_world))))))
     = [Inl lifecycleError, Inl lifecycleError]
   \<and> immediate_disposed (fst (snd (immediate_run example_env example_immediate_events
       (fst (snd (immediate_dispose example_immediate example_world)))
       (snd (snd (immediate_dispose example_immediate example_world))))))
   \<and> map snd (filter (\<lambda>p. isImmediateRecordUsage (fst p))
       (fst (immediate_run example_env example_immediate_events
         (fst (snd (immediate_dispose example_immediate example_world)))
         (snd (snd (immediate_dispose example_immediate example_world))))))
     = [Inl lifecycleError, Inl lifecycleError]"
proof -
  obtain r0 this0 w0 where
    d: "dispose example_env example_two_batches example_world = (r0, this0, w0)"
    by (metis prod_cases3)
  obtain trace this' w' where
    run: "batched_run example_env example_events this0 w0 = (trace, this', w')"
    by (metis prod_cases3)
  obtain ir0 ithis0 iw0 where
    idisp: "immediate_dispose example_immediate example_world = (ir0, ithis0, iw0)"
    by (metis prod_cases3)
  obtain itrace ithis' iw' where
    irun: "immediate_run example_env example_immediate_events ithis0 iw0 = (itrace, ithis', iw')"
    by (metis prod_cases3)
  note terminal = disposed_is_terminal [OF d run idisp irun]
  have final: "disposed this'" and ifinal: "immediate_disposed ithis'"
    using terminal by simp_all
  have events: "map fst trace = example_events"
    and rejected: "\<forall>(ev, r) \<in> set trace. isRecordUsage ev \<longrightarrow> r = Inl lifecycleError"
    using terminal by simp_all
  have ievents: "map fst itrace = example_immediate_events"
    and irejected: "\<forall>(ev, r) \<in> set itrace. isImmediateRecordUsage ev \<longrightarrow> r = Inl lifecycleError"
    using terminal by simp_all
  have "map snd (filter (\<lambda>p. isRecordUsage (fst p)) trace)
      = [Inl lifecycleError, Inl lifecycleError]"
    using events rejected by (auto simp: example_events_def map_eq_Cons_conv)
  moreover have "map snd (filter (\<lambda>p. isImmediateRecordUsage (fst p)) itrace)
      = [Inl lifecycleError, Inl lifecycleError]"
    using ievents irejected by (auto simp: example_immediate_events_def map_eq_Cons_conv)
  ultimately show ?thesis
    using final ifinal d run idisp irun by simp
qed

subsection \<open>Claim C4: the flush at the size threshold\<close>

lemma flushBatch_calls:
  assumes "map_of (pendingUsage this) k = Some recs" and "recs \<noteq> []"
  shows "usageRecordCalls (snd (snd (flushBatch e k this w)))
           = usageRecordCalls w @ [flushCall e k recs w]"
proof (cases "createUsageRecord e (usageRecordCalls w) (flushCall e k recs w)")
  case None
  then show ?thesis
    using flushBatch_success [OF assms, of e w] by (simp add: afterFlushCall_def)
next
  case (Some error)
  then show ?thesis
    using flushBatch_failure [OF assms, of e w error] by (simp add: afterFlushCall_def)
qed

lemma afterAppend_batch:
  "map_of (pendingUsage (fst (afterAppend e k cust amount endpoint this w))) k
     = Some (appended e k cust amount endpoint this w)"
  by (simp add: afterAppend_def update_conv')

lemma afterAppend_world:
  "usageRecordCalls (snd (afterAppend e k cust amount endpoint this w)) = usageRecordCalls w"
  "clockReads (snd (afterAppend e k cust amount endpoint this w)) = Suc (clockReads w)"
  by (simp_all add: afterAppend_def)

lemma appended_facts:
  "appended e k cust amount endpoint this w \<noteq> []"
  "length (appended e k cust amount endpoint this w) = Suc (length (batchOf this k))"
  "sum_list (map usageValue (appended e k cust amount endpoint this w))
     = sum_list (map usageValue (batchOf this k)) + amount"
  by (simp_all add: appended_def)

lemma recordUsage_at_threshold:
  assumes "\<not> disposed this" and "cust \<noteq> []" and "0 < amount"
    and "getSubscriptionItemId e cust = Returns k"
    and "maxBatchSize this \<le> real (length (batchOf this k)) + 1"
  shows "recordUsage e cust amount endpoint this w
           = flushBatch e k (fst (afterAppend e k cust amount endpoint this w))
               (snd (afterAppend e k cust amount endpoint this w))"
    and "usageRecordCalls (snd (snd (recordUsage e cust amount endpoint this w)))
           = usageRecordCalls w
               @ [\<lparr>subscription_item = k,
                   quantity = sum_list (map usageValue (batchOf this k)) + amount,
                   timestamp_seconds = dateNow e (Suc (clockReads w)) div 1000,
                   action = INCREMENT\<rparr>]"
proof -
  show eq: "recordUsage e cust amount endpoint this w
           = flushBatch e k (fst (afterAppend e k cust amount endpoint this w))
               (snd (afterAppend e k cust amount endpoint this w))"
    using assms(5) recordUsage_resolved [OF assms(1-4), of endpoint w]
    by (simp add: appended_facts split: prod.splits)
  show "usageRecordCalls (snd (snd (recordUsage e cust amount endpoint this w)))
           = usageRecordCalls w
               @ [\<lparr>subscription_item = k,
                   quantity = sum_list (map usageValue (batchOf this k)) + amount,
                   timestamp_seconds = dateNow e (Suc (clockReads w)) div 1000,
                   action = INCREMENT\<rparr>]"
    using flushBatch_calls [OF afterAppend_batch appended_facts(1),
        where e = e and w = "snd (afterAppend e k cust amount endpoint this w)"]
    by (simp add: eq afterAppend_world flushCall_def appended_facts)
qed

lemma recordUsage_below_threshold:
  assumes "\<not> disposed this" and "cust \<noteq> []" and "0 < amount"
    and "getSubscriptionItemId e cust = Returns k"
    and "real (length (batchOf this k)) + 1 < maxBatchSize this"
  shows "recordUsage e cust amount endpoint this w
           = (Inr (), fst (afterAppend e k cust amount endpoint this w),
              snd (afterAppend e k cust amount endpoint this w))"
  using assms(5) recordUsage_resolved [OF assms(1-4), of endpoint w]
  by (simp add: appended_facts split: prod.splits)

lemma afterAppend_fields:
  "disposed (fst (afterAppend e k cust amount endpoint this w)) = disposed this"
  "maxBatchSize (fst (afterAppend e k cust amount endpoint this w)) = maxBatchSize this"
  "batchOf (fst (afterAppend e k cust amount endpoint this w)) k
     = appended e k cust amount endpoint this w"
  by (simp_all add: afterAppend_def batchOf_def update_conv')

lemma two_records_one_flush:
  assumes size: "maxBatchSize this = 2" and active: "\<not> disposed this"
    and fresh: "batchOf this k = []"
    and first: "cust1 \<noteq> []" "0 < amount1" "getSubscriptionItemId e cust1 = Returns k"
    and second: "cust2 \<noteq> []" "0 < amount2" "getSubscriptionItemId e cust2 = Returns k"
    and call1: "recordUsage e cust1 amount1 endpoint1 this w = (r1, this1, w1)"
    and call2: "recordUsage e cust2 amount2 endpoint2 this1 w1 = (r2, this2, w2)"
  shows "r1 = Inr () \<and> usageRecordCalls w1 = usageRecordCalls w
       \<and> usageRecordCalls w2
           = usageRecordCalls w
               @ [\<lparr>subscription_item = k, quantity = amount1 + amount2,
                   timestamp_seconds = dateNow e (clockReads w + 2) div 1000,
                   action = INCREMENT\<rparr>]"
proof -
  have below: "real (length (batchOf this k)) + 1 < maxBatchSize this"
    using size fresh by simp
  have one: "recordUsage e cust1 amount1 endpoint1 this w
           = (Inr (), fst (afterAppend e k cust1 amount1 endpoint1 this w),
              snd (afterAppend e k cust1 amount1 endpoint1 this w))"
    by (rule recordUsage_below_threshold [OF active first below])
  then have r1: "r1 = Inr ()"
    and this1: "this1 = fst (afterAppend e k cust1 amount1 endpoint1 this w)"
    and w1: "w1 = snd (afterAppend e k cust1 amount1 endpoint1 this w)"
    using call1 by (auto simp: prod_eq_iff)
  have calls1: "usageRecordCalls w1 = usageRecordCalls w" and clock1: "clockReads w1 = Suc (clockReads w)"
    by (simp_all add: w1 afterAppend_world)
  have active1: "\<not> disposed this1" and size1: "maxBatchSize this1 = 2"
    and batch1: "batchOf this1 k = appended e k cust1 amount1 endpoint1 this w"
    using active size by (simp_all add: this1 afterAppend_fields)
  have reached: "maxBatchSize this1 \<le> real (length (batchOf this1 k)) + 1"
    by (simp add: size1 batch1 appended_facts fresh)
  have "usageRecordCalls (snd (snd (recordUsage e cust2 amount2 endpoint2 this1 w1)))
           = usageRecordCalls w1
               @ [\<lparr>subscription_item = k,
                   quantity = sum_list (map usageValue (batchOf this1 k)) + amount2,
                   timestamp_seconds = dateNow e (Suc (clockReads w1)) div 1000,
                   action = INCREMENT\<rparr>]"
    by (rule recordUsage_at_threshold(2) [OF active1 second reached])
  then have "usageRecordCalls w2
           = usageRecordCalls w
               @ [\<lparr>subscription_item = k, quantity = amount1 + amount2,
                   timestamp_seconds = dateNow e (clockReads w + 2) div 1000,
                   action = INCREMENT\<rparr>]"
    using call2 by (simp add: calls1 clock1 batch1 appended_facts fresh)
  then show ?thesis using r1 calls1 by simp
qed

text \<open>
  C4. A \<^const>\<open>recordUsage\<close> that passes validation and whose customer resolves to a
  key appends one record to the batch of that key. When the batch then has at least
  \<^const>\<open>maxBatchSize\<close> records, \<^const>\<open>recordUsage\<close> is the flush of that key on the
  strategy with the record appended: one call to Stripe, for that key, with the sum of
  the batch and the new value; below the threshold it resolves without a call. In
  particular, with a threshold of 2 and no record pending for the key, the first of
  two calls resolving to the key makes no call to Stripe and the second makes exactly
  one, with the sum of the two values. Without a configured \<^verbatim>\<open>maxBatchSize\<close> the
  threshold is 100.
\<close>

theorem recordUsage_flushes_at_threshold:
  "(\<not> disposed this \<and> cust \<noteq> [] \<and> 0 < amount \<and> getSubscriptionItemId e cust = Returns k \<longrightarrow>
      (maxBatchSize this \<le> real (length (batchOf this k)) + 1 \<longrightarrow>
         recordUsage e cust amount endpoint this w
           = flushBatch e k (fst (afterAppend e k cust amount endpoint this w))
               (snd (afterAppend e k cust amount endpoint this w))
         \<and> usageRecordCalls (snd (snd (recordUsage e cust amount endpoint this w)))
           = usageRecordCalls w
               @ [\<lparr>subscription_item = k,
                   quantity = sum_list (map usageValue (batchOf this k)) + amount,
                   timestamp_seconds = dateNow e (Suc (clockReads w)) div 1000,
                   action = INCREMENT\<rparr>])
      \<and> (real (length (batchOf this k)) + 1 < maxBatchSize this \<longrightarrow>
         recordUsage e cust amount endpoint this w
           = (Inr (), fst (afterAppend e k cust amount endpoint this w),
              snd (afterAppend e k cust amount endpoint this w))
         \<and> usageRecordCalls (snd (snd (recordUsage e cust amount endpoint this w)))
           = usageRecordCalls w))
   \<and> (maxBatchSize this = 2 \<and> \<not> disposed this \<and> batchOf this k = []
        \<and> cust1 \<noteq> [] \<and> 0 < amount1 \<and> getSubscriptionItemId e cust1 = Returns k
        \<and> cust2 \<noteq> [] \<and> 0 < amount2 \<and> getSubscriptionItemId e cust2 = Returns k
        \<and> recordUsage e cust1 amount1 endpoint1 this w = (r1, this1, w1)
        \<and> recordUsage e cust2 amount2 endpoint2 this1 w1 = (r2, this2, w2) \<longrightarrow>
      r1 = Inr () \<and> usageRecordCalls w1 = usageRecordCalls w
      \<and> usageRecordCalls w2
           = usageRecordCalls w
               @ [\<lparr>subscription_item = k, quantity = amount1 + amount2,
                   timestamp_seconds = dateNow e (clockReads w + 2) div 1000,
                   action = INCREMENT\<rparr>])
   \<and> (stripeApiKey config \<noteq> [] \<and> config_maxBatchSize config = None \<longrightarrow>
        (\<exists>new w0. newBatchedUsageRecordStrategy config w = (Inr new, w0)
                   \<and> maxBatchSize new = 100))"
proof (intro conjI impI)
  assume valid: "\<not> disposed this \<and> cust \<noteq> [] \<and> 0 < amount
      \<and> getSubscriptionItemId e cust = Returns k"
    and reached: "maxBatchSize this \<le> real (length (batchOf this k)) + 1"
  show "recordUsage e cust amount endpoint this w
           = flushBatch e k (fst (afterAppend e k cust amount endpoint this w))
               (snd (afterAppend e k cust amount endpoint this w))"
    using valid reached recordUsage_at_threshold(1) by blast
  show "usageRecordCalls (snd (snd (recordUsage e cust amount endpoint this w)))
           = usageRecordCalls w
               @ [\<lparr>subscription_item = k,
                   quantity = sum_list (map usageValue (batchOf this k)) + amount,
                   timestamp_seconds = dateNow e (Suc (clockReads w)) div 1000,
                   action = INCREMENT\<rparr>]"
    using valid reached recordUsage_at_threshold(2) by blast
next
  assume valid: "\<not> disposed this \<and> cust \<noteq> [] \<and> 0 < amount
      \<and> getSubscriptionItemId e cust = Returns k"
    and below: "real (length (batchOf this k)) + 1 < maxBatchSize this"
  show eq: "recordUsage e cust amount endpoint this w
           = (Inr (), fst (afterAppend e k cust amount endpoint this w),
              snd (afterAppend e k cust amount endpoint this w))"
    using valid below recordUsage_below_threshold by blast
  show "usageRecordCalls (snd (snd (recordUsage e cust amount endpoint this w)))
           = usageRecordCalls w"
    by (simp add: eq afterAppend_world)
next
  assume two: "maxBatchSize this = 2 \<and> \<not> disposed this \<and> batchOf this k = []
        \<and> cust1 \<noteq> [] \<and> 0 < amount1 \<and> getSubscriptionItemId e cust1 = Returns k
        \<and> cust2 \<noteq> [] \<and> 0 < amount2 \<and> getSubscriptionItemId e cust2 = Returns k
        \<and> recordUsage e cust1 amount1 endpoint1 this w = (r1, this1, w1)
        \<and> recordUsage e cust2 amount2 endpoint2 this1 w1 = (r2, this2, w2)"
  have all: "r1 = Inr () \<and> usageRecordCalls w1 = usageRecordCalls w
       \<and> usageRecordCalls w2
           = usageRecordCalls w
               @ [\<lparr>subscription_item = k, quantity = amount1 + amount2,
                   timestamp_seconds = dateNow e (clockReads w + 2) div 1000,
                   action = INCREMENT\<rparr>]"
    using two two_records_one_flush [of this k cust1 amount1 e cust2 amount2 endpoint1 w r1 this1 w1
        endpoint2 r2 this2 w2]
    by blast
  show "r1 = Inr ()" and "usageRecordCalls w1 = usageRecordCalls w"
    and "usageRecordCalls w2
           = usageRecordCalls w
               @ [\<lparr>subscription_item = k, quantity = amount1 + amount2,
                   timestamp_seconds = dateNow e (clockReads w + 2) div 1000,
                   action = INCREMENT\<rparr>]"
    using all by simp_all
next
  assume "stripeApiKey config \<noteq> [] \<and> config_maxBatchSize config = None"
  then show "\<exists>new w0. newBatchedUsageRecordStrategy config w = (Inr new, w0)
                   \<and> maxBatchSize new = 100"
    by (simp add: newBatchedUsageRecordStrategy_def orDefault_def Let_def)
qed

text \<open>
  With a threshold of 2, two records of usage 1 for a customer that resolves to
  \<^verbatim>\<open>si_123\<close>: nothing is sent by the first call, one call of quantity 2 by the second.
\<close>

theorem recordUsage_flushes_at_threshold_witness:
  "usageRecordCalls (snd (snd (recordUsage example_env ''cus_123'' 1 None example_small example_world)))
     = []
   \<and> usageRecordCalls (snd (snd (recordUsage example_env ''cus_123'' 1 None
        (fst (snd (recordUsage example_env ''cus_123'' 1 None example_small example_world)))
        (snd (snd (recordUsage example_env ''cus_123'' 1 None example_small example_world))))))
     = [\<lparr>subscription_item = ''si_123'', quantity = 2, timestamp_seconds = 1700000000,
         action = INCREMENT\<rparr>]"
proof -
  obtain r1 this1 w1 where
    call1: "recordUsage example_env ''cus_123'' 1 None example_small example_world = (r1, this1, w1)"
    by (metis prod_cases3)
  obtain r2 this2 w2 where
    call2: "recordUsage example_env ''cus_123'' 1 None this1 w1 = (r2, this2, w2)"
    by (metis prod_cases3)
  have setting: "maxBatchSize example_small = 2 \<and> \<not> disposed example_small
      \<and> batchOf example_small ''si_123'' = []
      \<and> ''cus_123'' \<noteq> [] \<and> (0::real) < 1
      \<and> getSubscriptionItemId example_env ''cus_123'' = Returns ''si_123''"
    by (simp add: example_small_def example_strategy_def batchOf_def example_env_def)
  have "r1 = Inr () \<and> usageRecordCalls w1 = usageRecordCalls example_world
      \<and> usageRecordCalls w2
           = usageRecordCalls example_world
               @ [\<lparr>subscription_item = ''si_123'', quantity = 1 + 1,
                   timestamp_seconds = dateNow example_env (clockReads example_world + 2) div 1000,
                   action = INCREMENT\<rparr>]"
    using recordUsage_flushes_at_threshold [where this = example_small and k = "''si_123''"
        and ?cust1.0 = "''cus_123''" and ?amount1.0 = 1 and e = example_env
        and ?cust2.0 = "''cus_123''" and ?amount2.0 = 1 and ?endpoint1.0 = None
        and w = example_world and ?r1.0 = r1 and ?this1.0 = this1 and ?w1.0 = w1
        and ?endpoint2.0 = None and ?r2.0 = r2 and ?this2.0 = this2 and ?w2.0 = w2]
      setting call1 call2
    by blast
  then show ?thesis
    using call1 call2 by (simp add: example_world_def example_env_def)
qed

subsection \<open>Claim C8: what counts as a failed resolution\<close>

lemma recordUsage_resolver_throws:
  assumes "\<not> disposed this" and "cust \<noteq> []" and "0 < amount"
    and "getSubscriptionItemId e cust = Throws error"
  shows "recordUsage e cust amount endpoint this w
           = (Inl (recordUsage_catch error), this, w\<lparr>resolverCalls := resolverCalls w @ [cust]\<rparr>)"
  using assms by (simp add: recordUsage_def)

text \<open>
  C8 as stated fails: a resolver that returns the empty string is not treated as a
  failure. With the resolver of \<^const>\<open>example_env\<close>, which returns the empty string for
  \<^verbatim>\<open>cus_empty\<close>, \<^const>\<open>recordUsage\<close> resolves and the record is pending under the empty
  key.
\<close>

theorem recordUsage_empty_key_counterexample:
  "recordUsage example_env ''cus_empty'' 1 None example_strategy example_world
     = (Inr (),
        example_strategy\<lparr>pendingUsage :=
          [([], [\<lparr>customerId = ''cus_empty'', usageValue = 1, apiEndpoint = None,
                  timestamp = 1700000000000\<rparr>])]\<rparr>,
        example_world\<lparr>resolverCalls := [''cus_empty''], clockReads := 1\<rparr>)"
  by (simp add: recordUsage_def example_env_def example_strategy_def example_world_def Date_now_def)

text \<open>
  C8, amended. On a strategy that accepts the call, a resolver that throws makes
  \<^const>\<open>recordUsage\<close> reject, with the \<^verbatim>\<open>Error\<close> thrown or with an \<^verbatim>\<open>Error\<close> that wraps
  the string form of any other value, and the strategy is unchanged: no record is
  appended. A resolver that returns the empty string is answered like any other key:
  the record is appended to the batch under the empty key, \<^const>\<open>recordUsage\<close> resolves
  below the threshold and is the flush of that batch at the threshold.
\<close>

theorem recordUsage_resolution_failure:
  assumes "\<not> disposed this" and "cust \<noteq> []" and "0 < amount"
  shows "(getSubscriptionItemId e cust = Throws error \<longrightarrow>
            recordUsage e cust amount endpoint this w
              = (Inl (recordUsage_catch error), this,
                 w\<lparr>resolverCalls := resolverCalls w @ [cust]\<rparr>)
            \<and> (\<forall>err. error = ThrownError err \<longrightarrow> recordUsage_catch error = ThrownError err)
            \<and> (\<forall>s c st. error = ThrownValue s c st \<longrightarrow>
                  recordUsage_catch error
                    = ThrownError (newError (''Unknown error in recordUsage: '' @ s))))
       \<and> (getSubscriptionItemId e cust = Returns []
            \<and> real (length (batchOf this [])) + 1 < maxBatchSize this \<longrightarrow>
            recordUsage e cust amount endpoint this w
              = (Inr (),
                 this\<lparr>pendingUsage := AList.update []
                        (batchOf this []
                           @ [\<lparr>customerId = cust, usageValue = amount, apiEndpoint = endpoint,
                               timestamp = dateNow e (clockReads w)\<rparr>])
                        (pendingUsage this)\<rparr>,
                 w\<lparr>resolverCalls := resolverCalls w @ [cust], clockReads := Suc (clockReads w)\<rparr>))
       \<and> (getSubscriptionItemId e cust = Returns []
            \<and> maxBatchSize this \<le> real (length (batchOf this [])) + 1 \<longrightarrow>
            recordUsage e cust amount endpoint this w
              = flushBatch e []
                 (this\<lparr>pendingUsage := AList.update []
                        (batchOf this []
                           @ [\<lparr>customerId = cust, usageValue = amount, apiEndpoint = endpoint,
                               timestamp = dateNow e (clockReads w)\<rparr>])
                        (pendingUsage this)\<rparr>)
                 (w\<lparr>resolverCalls := resolverCalls w @ [cust], clockReads := Suc (clockReads w)\<rparr>))"
proof (intro conjI impI)
  assume "getSubscriptionItemId e cust = Throws error"
  then show "recordUsage e cust amount endpoint this w
              = (Inl (recordUsage_catch error), this,
                 w\<lparr>resolverCalls := resolverCalls w @ [cust]\<rparr>)"
    using assms by (simp add: recordUsage_resolver_throws)
next
  show "\<forall>err. error = ThrownError err \<longrightarrow> recordUsage_catch error = ThrownError err"
    by (simp add: recordUsage_catch_def)
next
  show "\<forall>s c st. error = ThrownValue s c st \<longrightarrow>
          recordUsage_catch error = ThrownError (newError (''Unknown error in recordUsage: '' @ s))"
    by (simp add: recordUsage_catch_def)
next
  assume "getSubscriptionItemId e cust = Returns []
            \<and> real (length (batchOf this [])) + 1 < maxBatchSize this"
  then show "recordUsage e cust amount endpoint this w
              = (Inr (),
                 this\<lparr>pendingUsage := AList.update []
                        (batchOf this []
                           @ [\<lparr>customerId = cust, usageValue = amount, apiEndpoint = endpoint,
                               timestamp = dateNow e (clockReads w)\<rparr>])
                        (pendingUsage this)\<rparr>,
                 w\<lparr>resolverCalls := resolverCalls w @ [cust], clockReads := Suc (clockReads w)\<rparr>)"
    using recordUsage_below_threshold [OF assms, of e "[]" endpoint w]
    by (simp add: afterAppend_def appended_def)
next
  assume "getSubscriptionItemId e cust = Returns []
            \<and> maxBatchSize this \<le> real (length (batchOf this [])) + 1"
  then show "recordUsage e cust amount endpoint this w
              = flushBatch e []
                 (this\<lparr>pendingUsage := AList.update []
                        (batchOf this []
                           @ [\<lparr>customerId = cust, usageValue = amount, apiEndpoint = endpoint,
                               timestamp = dateNow e (clockReads w)\<rparr>])
                        (pendingUsage this)\<rparr>)
                 (w\<lparr>resolverCalls := resolverCalls w @ [cust], clockReads := Suc (clockReads w)\<rparr>)"
    using recordUsage_at_threshold(1) [OF assms, of e "[]" endpoint w]
    by (simp add: afterAppend_def appended_def)
qed

text \<open>
  The resolver of the test suite throws an \<^verbatim>\<open>Error\<close> for \<^verbatim>\<open>cus_unknown\<close> and a string for
  \<^verbatim>\<open>cus_string_error\<close>; it returns the empty string for \<^verbatim>\<open>cus_empty\<close>.
\<close>

theorem recordUsage_resolution_failure_witness:
  "recordUsage example_env ''cus_unknown'' 1 None example_strategy example_world
     = (Inl (ThrownError (newError ''Unknown customer'')), example_strategy,
        example_world\<lparr>resolverCalls := [''cus_unknown'']\<rparr>)
   \<and> recordUsage example_env ''cus_string_error'' 1 None example_strategy example_world
     = (Inl (ThrownError (newError ''Unknown error in recordUsage: String error'')),
        example_strategy, example_world\<lparr>resolverCalls := [''cus_string_error'']\<rparr>)
   \<and> fst (recordUsage example_env ''cus_empty'' 1 None example_strategy example_world) = Inr ()
   \<and> map_of (pendingUsage (fst (snd
        (recordUsage example_env ''cus_empty'' 1 None example_strategy example_world)))) []
     = Some [\<lparr>customerId = ''cus_empty'', usageValue = 1, apiEndpoint = None,
              timestamp = 1700000000000\<rparr>]"
proof -
  have active: "\<not> disposed example_strategy"
    by (simp add: example_strategy_def)
  have unknown: "getSubscriptionItemId example_env ''cus_unknown''
      = Throws (ThrownError (newError ''Unknown customer''))"
    and string: "getSubscriptionItemId example_env ''cus_string_error''
      = Throws (ThrownValue ''String error'' None None)"
    and empty: "getSubscriptionItemId example_env ''cus_empty'' = Returns []"
    by (simp_all add: example_env_def)
  have below: "real (length (batchOf example_strategy [])) + 1 < maxBatchSize example_strategy"
    by (simp add: example_strategy_def batchOf_def)
  have pos: "(0::real) < 1" by simp
  have "recordUsage example_env ''cus_unknown'' 1 None example_strategy example_world
     = (Inl (ThrownError (newError ''Unknown customer'')), example_strategy,
        example_world\<lparr>resolverCalls := [''cus_unknown'']\<rparr>)"
    using recordUsage_resolution_failure [OF active _ pos, of "''cus_unknown''" example_env
        "ThrownError (newError ''Unknown customer'')" None example_world] unknown
    by (simp add: example_world_def)
  moreover have "recordUsage example_env ''cus_string_error'' 1 None example_strategy example_world
     = (Inl (ThrownError (newError ''Unknown error in recordUsage: String error'')),
        example_strategy, example_world\<lparr>resolverCalls := [''cus_string_error'']\<rparr>)"
    using recordUsage_resolution_failure [OF active _ pos, of "''cus_string_error''" example_env
        "ThrownValue ''String error'' None None" None example_world] string
    by (simp add: example_world_def)
  moreover have "recordUsage example_env ''cus_empty'' 1 None example_strategy example_world
     = (Inr (),
        example_strategy\<lparr>pendingUsage := AList.update []
          (batchOf example_strategy []
             @ [\<lparr>customerId = ''cus_empty'', usageValue = 1, apiEndpoint = None,
                 timestamp = dateNow example_env (clockReads example_world)\<rparr>])
          (pendingUsage example_strategy)\<rparr>,
        example_world\<lparr>resolverCalls := resolverCalls example_world @ [''cus_empty''],
          clockReads := Suc (clockReads example_world)\<rparr>)"
    using recordUsage_resolution_failure [OF active _ pos, of "''cus_empty''" example_env
        "ThrownValue [] None None" None example_world] empty below
    by simp
  ultimately show ?thesis
    by (simp add: example_strategy_def example_world_def example_env_def batchOf_def)
qed

subsection \<open>Claim C9: what the wrapping error keeps of a backend failure\<close>

lemma newStripeApiError_fields:
  "errorClass (newStripeApiError msg details c) = StripeApiError"
  "message (newStripeApiError msg details c) = msg"
  "cause (newStripeApiError msg details c) = Some c"
  "stripeCode (newStripeApiError msg details c) = map_option fst details"
  "statusCode (newStripeApiError msg details c) = map_option snd details"
  by (simp_all add: newStripeApiError_def split: option.splits prod.splits)

lemma errorDetailsOf_both:
  "thrownCode error = Some c \<Longrightarrow> c \<noteq> [] \<Longrightarrow> thrownStatusCode error = Some s \<Longrightarrow> s \<noteq> 0
     \<Longrightarrow> errorDetailsOf error = Some (c, s)"
  by (simp add: errorDetailsOf_def)

lemma errorDetailsOf_missing:
  "thrownCode error = None \<or> thrownCode error = Some [] \<or> thrownStatusCode error = None
     \<or> thrownStatusCode error = Some 0
     \<Longrightarrow> errorDetailsOf error = None"
  by (auto simp: errorDetailsOf_def split: option.splits)

lemma flushBatch_rejected:
  assumes "flushBatch e k this w = (r, this', w')"
    and "usageRecordCalls w' = usageRecordCalls w @ [call]"
    and "createUsageRecord e (usageRecordCalls w) call = Some error"
  shows "r = Inl (ThrownError (newStripeApiError
                   (''Failed to flush usage records for subscription item '' @ k @ '': ''
                      @ errorMessageOf error)
                   (errorDetailsOf error) (causeOf error)))"
proof (cases rule: flushBatch_cases [of this k e w])
  case noop
  then show ?thesis using assms by simp
next
  case (success recs)
  then have "call = flushCall e k recs w"
    using assms(1,2) by (simp add: afterFlushCall_def)
  then have rejected: "createUsageRecord e (usageRecordCalls w) (flushCall e k recs w) = Some error"
    using assms(3) by simp
  show ?thesis
    using flushBatch_failure [OF success(1,2) rejected] assms(1) by simp
next
  case (failure recs error')
  then have "call = flushCall e k recs w"
    using assms(1,2) by (simp add: afterFlushCall_def)
  then have rejected: "createUsageRecord e (usageRecordCalls w) (flushCall e k recs w) = Some error"
    using assms(3) by simp
  show ?thesis
    using flushBatch_failure [OF failure(1,2) rejected] assms(1) by simp
qed

lemma recordUsage_rejected:
  assumes "recordUsage e cust amount endpoint this w = (r, this', w')"
    and "usageRecordCalls w' = usageRecordCalls w @ [call]"
    and "createUsageRecord e (usageRecordCalls w) call = Some error"
  shows "\<exists>k. r = Inl (ThrownError (newStripeApiError
                   (''Failed to flush usage records for subscription item '' @ k @ '': ''
                      @ errorMessageOf error)
                   (errorDetailsOf error) (causeOf error)))"
proof -
  have valid: "\<not> disposed this" "cust \<noteq> []" "0 < amount"
    using assms(1,2) by (auto simp: recordUsage_def split: if_splits)
  show ?thesis
  proof (cases "getSubscriptionItemId e cust")
    case (Throws thrown)
    then show ?thesis
      using assms(1,2) recordUsage_resolver_throws [OF valid Throws, of endpoint w] by auto
  next
    case (Returns k)
    show ?thesis
    proof (cases "maxBatchSize this \<le> real (length (batchOf this k)) + 1")
      case False
      then have "usageRecordCalls (snd (snd (recordUsage e cust amount endpoint this w)))
          = usageRecordCalls w"
        using recordUsage_below_threshold [OF valid Returns, of endpoint w]
        by (simp add: afterAppend_world)
      then show ?thesis using assms(1,2) by simp
    next
      case True
      let ?this1 = "fst (afterAppend e k cust amount endpoint this w)"
      let ?w1 = "snd (afterAppend e k cust amount endpoint this w)"
      have fb: "flushBatch e k ?this1 ?w1 = (r, this', w')"
        using recordUsage_at_threshold(1) [OF valid Returns True, of endpoint w] assms(1) by simp
      have "r = Inl (ThrownError (newStripeApiError
                   (''Failed to flush usage records for subscription item '' @ k @ '': ''
                      @ errorMessageOf error)
                   (errorDetailsOf error) (causeOf error)))"
        using flushBatch_rejected [OF fb, of call error] assms(2,3)
        by (simp add: afterAppend_world)
      then show ?thesis by blast
    qed
  qed
qed

lemma immediate_recordUsage_rejected:
  assumes "immediate_recordUsage e cust amount endpoint this w = (r, this', w')"
    and "meterEventCalls w' = meterEventCalls w @ [call]"
    and "meterEventsCreate e (meterEventCalls w) call = Some error"
  shows "r = Inl (ThrownError (newStripeApiError
                   (''Failed to record meter event for customer '' @ cust @ '': ''
                      @ errorMessageOf error)
                   (errorDetailsOf error) (causeOf error)))"
  using assms
  by (auto simp: immediate_recordUsage_def Date_now_def Let_def split: if_splits option.splits)

lemma setMessage_fields:
  "message (setMessage msg err) = msg"
  "errorClass (setMessage msg err) = errorClass err"
  "stripeCode (setMessage msg err) = stripeCode err"
  "statusCode (setMessage msg err) = statusCode err"
  "cause (setMessage msg err) = cause err"
  by (cases err; simp)+

lemma recordApiCall_rethrows:
  assumes "strategy_recordUsage cust usage endpoint this w = (Inl (ThrownError err), this', w')"
    and "cust \<noteq> []" and "0 < usage"
  shows "recordApiCall strategy_recordUsage cust (Some usage) endpoint this w
           = (Inl (ThrownError (setMessage (''Failed to record API call: '' @ message err) err)),
              this', w')"
  using assms by (simp add: recordApiCall_def)

text \<open>
  C9 as stated fails: a code that comes without a status is not copied to the wrapping
  error. The immediate strategy of \<^const>\<open>example_env\<close> is rejected for \<^verbatim>\<open>cus_reset\<close>
  with an \<^verbatim>\<open>Error\<close> whose \<^verbatim>\<open>code\<close> is \<^verbatim>\<open>ECONNRESET\<close>, and for \<^verbatim>\<open>cus_object\<close> with the
  object \<^verbatim>\<open>{code: 'rate_limit'}\<close>: the \<^const>\<open>StripeApiError\<close> has no \<^const>\<open>stripeCode\<close> in
  either case, and in the second its cause has no code either.
\<close>

theorem backend_code_without_status_counterexample:
  "fst (immediate_recordUsage example_env ''cus_reset'' 1 None example_immediate example_world)
     = Inl (ThrownError (JsError StripeApiError
              ''Failed to record meter event for customer cus_reset: socket hang up''
              None None None
              (Some (JsError PlainError ''socket hang up'' (Some ''ECONNRESET'') None None None))))
   \<and> fst (immediate_recordUsage example_env ''cus_object'' 1 None example_immediate example_world)
     = Inl (ThrownError (JsError StripeApiError
              ''Failed to record meter event for customer cus_object: [object Object]''
              None None None
              (Some (JsError PlainError ''[object Object]'' None None None None))))"
  by (simp add: immediate_recordUsage_def example_env_def example_immediate_def example_world_def
      Date_now_def newStripeApiError_def errorDetailsOf_def thrownCode_def thrownStatusCode_def
      causeOf_def errorMessageOf_def newError_def)

text \<open>
  C9, amended. Whenever Stripe rejects the call that the immediate
  \<^const>\<open>immediate_recordUsage\<close>, \<^const>\<open>flushBatch\<close> or, through its flush at the threshold,
  \<^const>\<open>recordUsage\<close> has made, the method rejects with a \<^const>\<open>StripeApiError\<close> whose
  cause is the value caught (the \<^verbatim>\<open>Error\<close> itself, or a new \<^verbatim>\<open>Error\<close> of its string form).
  The code and the status of the value caught are kept on it, as \<^const>\<open>stripeCode\<close> and
  \<^const>\<open>statusCode\<close>, when both are there, the code not empty and the status not 0;
  when either is missing the wrapping error has neither. The metering service throws
  the error of its strategy again with the same class, cause, \<^const>\<open>stripeCode\<close> and
  \<^const>\<open>statusCode\<close>, under a prefixed message.
\<close>

theorem backend_failure_keeps_paired_details:
  "((immediate_recordUsage e cust amount endpoint ithis w = (r, ithis', w')
       \<and> meterEventCalls w' = meterEventCalls w @ [mcall]
       \<and> meterEventsCreate e (meterEventCalls w) mcall = Some error)
     \<or> (flushBatch e k this w = (r, this', w')
       \<and> usageRecordCalls w' = usageRecordCalls w @ [ucall]
       \<and> createUsageRecord e (usageRecordCalls w) ucall = Some error)
     \<or> (recordUsage e cust amount endpoint this w = (r, this', w')
       \<and> usageRecordCalls w' = usageRecordCalls w @ [ucall]
       \<and> createUsageRecord e (usageRecordCalls w) ucall = Some error)
     \<longrightarrow>
      (\<exists>err. r = Inl (ThrownError err) \<and> errorClass err = StripeApiError
         \<and> cause err = Some (causeOf error)
         \<and> (\<forall>original. error = ThrownError original \<longrightarrow> cause err = Some original)
         \<and> (\<forall>c s. thrownCode error = Some c \<and> c \<noteq> [] \<and> thrownStatusCode error = Some s \<and> s \<noteq> 0
               \<longrightarrow> stripeCode err = Some c \<and> statusCode err = Some s)
         \<and> (thrownCode error = None \<or> thrownCode error = Some []
               \<or> thrownStatusCode error = None \<or> thrownStatusCode error = Some 0
               \<longrightarrow> stripeCode err = None \<and> statusCode err = None)))
   \<and> (strategy_recordUsage cust amount endpoint sthis w = (Inl (ThrownError err0), sthis', w')
        \<and> cust \<noteq> [] \<and> 0 < amount \<longrightarrow>
      (\<exists>err1. recordApiCall strategy_recordUsage cust (Some amount) endpoint sthis w
                 = (Inl (ThrownError err1), sthis', w')
         \<and> message err1 = ''Failed to record API call: '' @ message err0
         \<and> errorClass err1 = errorClass err0 \<and> cause err1 = cause err0
         \<and> stripeCode err1 = stripeCode err0 \<and> statusCode err1 = statusCode err0))"
proof (intro conjI impI)
  assume rejected:
    "(immediate_recordUsage e cust amount endpoint ithis w = (r, ithis', w')
       \<and> meterEventCalls w' = meterEventCalls w @ [mcall]
       \<and> meterEventsCreate e (meterEventCalls w) mcall = Some error)
     \<or> (flushBatch e k this w = (r, this', w')
       \<and> usageRecordCalls w' = usageRecordCalls w @ [ucall]
       \<and> createUsageRecord e (usageRecordCalls w) ucall = Some error)
     \<or> (recordUsage e cust amount endpoint this w = (r, this', w')
       \<and> usageRecordCalls w' = usageRecordCalls w @ [ucall]
       \<and> createUsageRecord e (usageRecordCalls w) ucall = Some error)"
  then have "\<exists>msg. r = Inl (ThrownError (newStripeApiError msg
      (errorDetailsOf error) (causeOf error)))"
  proof (elim disjE conjE)
    assume "immediate_recordUsage e cust amount endpoint ithis w = (r, ithis', w')"
      and "meterEventCalls w' = meterEventCalls w @ [mcall]"
      and "meterEventsCreate e (meterEventCalls w) mcall = Some error"
    then show ?thesis
      using immediate_recordUsage_rejected by blast
  next
    assume "flushBatch e k this w = (r, this', w')"
      and "usageRecordCalls w' = usageRecordCalls w @ [ucall]"
      and "createUsageRecord e (usageRecordCalls w) ucall = Some error"
    then show ?thesis
      using flushBatch_rejected by blast
  next
    assume "recordUsage e cust amount endpoint this w = (r, this', w')"
      and "usageRecordCalls w' = usageRecordCalls w @ [ucall]"
      and "createUsageRecord e (usageRecordCalls w) ucall = Some error"
    then show ?thesis
      using recordUsage_rejected [of e cust amount endpoint this w r this' w' ucall error]
      by blast
  qed
  then obtain msg where r: "r = Inl (ThrownError (newStripeApiError msg
      (errorDetailsOf error) (causeOf error)))"
    by blast
  let ?err = "newStripeApiError msg (errorDetailsOf error) (causeOf error)"
  have "errorClass ?err = StripeApiError" and "cause ?err = Some (causeOf error)"
    by (simp_all add: newStripeApiError_fields)
  moreover have "\<forall>original. error = ThrownError original \<longrightarrow> cause ?err = Some original"
    by (simp add: newStripeApiError_fields causeOf_def)
  moreover have "\<forall>c s. thrownCode error = Some c \<and> c \<noteq> [] \<and> thrownStatusCode error = Some s \<and> s \<noteq> 0
               \<longrightarrow> stripeCode ?err = Some c \<and> statusCode ?err = Some s"
    by (simp add: newStripeApiError_fields errorDetailsOf_both)
  moreover have "thrownCode error = None \<or> thrownCode error = Some []
               \<or> thrownStatusCode error = None \<or> thrownStatusCode error = Some 0
               \<longrightarrow> stripeCode ?err = None \<and> statusCode ?err = None"
    using errorDetailsOf_missing [of error] by (simp add: newStripeApiError_fields)
  ultimately have "r = Inl (ThrownError ?err) \<and> errorClass ?err = StripeApiError
         \<and> cause ?err = Some (causeOf error)
         \<and> (\<forall>original. error = ThrownError original \<longrightarrow> cause ?err = Some original)
         \<and> (\<forall>c s. thrownCode error = Some c \<and> c \<noteq> [] \<and> thrownStatusCode error = Some s \<and> s \<noteq> 0
               \<longrightarrow> stripeCode ?err = Some c \<and> statusCode ?err = Some s)
         \<and> (thrownCode error = None \<or> thrownCode error = Some []
               \<or> thrownStatusCode error = None \<or> thrownStatusCode error = Some 0
               \<longrightarrow> stripeCode ?err = None \<and> statusCode ?err = None)"
    using r by simp
  then show "\<exists>err. r = Inl (ThrownError err) \<and> errorClass err = StripeApiError
         \<and> cause err = Some (causeOf error)
         \<and> (\<forall>original. error = ThrownError original \<longrightarrow> cause err = Some original)
         \<and> (\<forall>c s. thrownCode error = Some c \<and> c \<noteq> [] \<and> thrownStatusCode error = Some s \<and> s \<noteq> 0
               \<longrightarrow> stripeCode err = Some c \<and> statusCode err = Some s)
         \<and> (thrownCode error = None \<or> thrownCode error = Some []
               \<or> thrownStatusCode error = None \<or> thrownStatusCode error = Some 0
               \<longrightarrow> stripeCode err = None \<and> statusCode err = None)"
    by (rule exI)
next
  assume "strategy_recordUsage cust amount endpoint sthis w = (Inl (ThrownError err0), sthis', w')
        \<and> cust \<noteq> [] \<and> 0 < amount"
  then have "recordApiCall strategy_recordUsage cust (Some amount) endpoint sthis w
      = (Inl (ThrownError (setMessage (''Failed to record API call: '' @ message err0) err0)),
         sthis', w')"
    using recordApiCall_rethrows [of strategy_recordUsage cust amount endpoint sthis w err0 sthis' w']
    by simp
  then show "\<exists>err1. recordApiCall strategy_recordUsage cust (Some amount) endpoint sthis w
                 = (Inl (ThrownError err1), sthis', w')
         \<and> message err1 = ''Failed to record API call: '' @ message err0
         \<and> errorClass err1 = errorClass err0 \<and> cause err1 = cause err0
         \<and> stripeCode err1 = stripeCode err0 \<and> statusCode err1 = statusCode err0"
    by (intro exI [of _ "setMessage (''Failed to record API call: '' @ message err0) err0"])
      (simp add: setMessage_fields)
qed

text \<open>
  The test "should properly handle Stripe API errors with code and statusCode": the
  \<^verbatim>\<open>Error\<close> thrown for \<^verbatim>\<open>cus_404\<close> has both, and the wrapping error keeps both, also through
  the metering service.
\<close>

theorem backend_failure_keeps_paired_details_witness:
  "(\<exists>err. fst (immediate_recordUsage example_env ''cus_404'' 1 None example_immediate example_world)
            = Inl (ThrownError err)
        \<and> errorClass err = StripeApiError
        \<and> stripeCode err = Some ''resource_missing'' \<and> statusCode err = Some 404
        \<and> cause err = Some (JsError PlainError ''Resource not found'' (Some ''resource_missing'')
                                None (Some 404) None))
   \<and> (\<exists>err1. fst (recordApiCall (immediate_recordUsage example_env) ''cus_404'' (Some 1) None
                    example_immediate example_world) = Inl (ThrownError err1)
        \<and> errorClass err1 = StripeApiError
        \<and> stripeCode err1 = Some ''resource_missing'' \<and> statusCode err1 = Some 404)"
proof -
  let ?error = "ThrownError (JsError PlainError ''Resource not found'' (Some ''resource_missing'')
                                None (Some 404) None)"
  let ?mcall = "\<lparr>customer = ''cus_404'', event_value = 1, event_action = INCREMENT,
      aggregation_method = AGG_SUM,
      idempotency_key = ''test_prefix'' @ ''_'' @ ''cus_404'' @ ''_''
                          @ stringOfInt (dateNow example_env 0),
      api_endpoint = ''not_specified''\<rparr>"
  obtain r ithis' w' where call:
    "immediate_recordUsage example_env ''cus_404'' 1 None example_immediate example_world
       = (r, ithis', w')"
    by (metis prod_cases3)
  have w': "meterEventCalls w' = meterEventCalls example_world @ [?mcall]"
    using call
    by (auto simp: immediate_recordUsage_def example_immediate_def example_world_def Date_now_def
        Let_def split: option.splits)
  have rejected: "meterEventsCreate example_env (meterEventCalls example_world) ?mcall = Some ?error"
    by (simp add: example_env_def)
  have both: "thrownCode ?error = Some ''resource_missing'' \<and> ''resource_missing'' \<noteq> []
      \<and> thrownStatusCode ?error = Some 404 \<and> (404::real) \<noteq> 0"
    by (simp add: thrownCode_def thrownStatusCode_def)
  obtain err where err: "r = Inl (ThrownError err)" "errorClass err = StripeApiError"
    "cause err = Some (causeOf ?error)"
    "stripeCode err = Some ''resource_missing''" "statusCode err = Some 404"
    using backend_failure_keeps_paired_details [THEN conjunct1, rule_format,
        of example_env "''cus_404''" 1 None example_immediate example_world r ithis' w'
          ?mcall ?error] call w' rejected both
    by blast
  have first: "\<exists>err. fst (immediate_recordUsage example_env ''cus_404'' 1 None example_immediate
              example_world) = Inl (ThrownError err)
        \<and> errorClass err = StripeApiError
        \<and> stripeCode err = Some ''resource_missing'' \<and> statusCode err = Some 404
        \<and> cause err = Some (JsError PlainError ''Resource not found'' (Some ''resource_missing'')
                                None (Some 404) None)"
    using err call by (intro exI [of _ err]) (simp add: causeOf_def)
  have strategy: "immediate_recordUsage example_env ''cus_404'' 1 None example_immediate example_world
       = (Inl (ThrownError err), ithis', w') \<and> ''cus_404'' \<noteq> [] \<and> (0::real) < 1"
    using call err(1) by simp
  obtain err1 where "recordApiCall (immediate_recordUsage example_env) ''cus_404'' (Some 1) None
        example_immediate example_world = (Inl (ThrownError err1), ithis', w')"
    and "errorClass err1 = errorClass err" and "stripeCode err1 = stripeCode err"
    and "statusCode err1 = statusCode err"
    using backend_failure_keeps_paired_details [THEN conjunct2, rule_format,
        of "immediate_recordUsage example_env" "''cus_404''" 1 None example_immediate example_world
          err ithis' w'] strategy
    by blast
  then have second: "\<exists>err1. fst (recordApiCall (immediate_recordUsage example_env) ''cus_404''
        (Some 1) None example_immediate example_world) = Inl (ThrownError err1)
        \<and> errorClass err1 = StripeApiError
        \<and> stripeCode err1 = Some ''resource_missing'' \<and> statusCode err1 = Some 404"
    using err by (intro exI [of _ err1]) simp
  show ?thesis using first second by blast
qed

subsection \<open>The keys of the store stay distinct\<close>

text \<open>
  The store is a \<^verbatim>\<open>Map\<close>, which holds a key once. In the association list this is the
  invariant that the keys are distinct: the constructor establishes it and every event
  keeps it, so that it holds of every strategy a program can reach.
\<close>

lemma example_strategy_constructed:
  "newBatchedUsageRecordStrategy example_config example_world
     = (Inr example_strategy, example_world\<lparr>setIntervalCalls := [1000], unrefCalls := [0]\<rparr>)"
  by (simp add: newBatchedUsageRecordStrategy_def example_config_def example_world_def
      example_strategy_def orDefault_def)

lemma constructor_distinct_keys:
  "newBatchedUsageRecordStrategy config w = (Inr this, w')
     \<Longrightarrow> distinct (map fst (pendingUsage this))"
  by (auto simp: newBatchedUsageRecordStrategy_def Let_def split: if_splits)

lemma afterAppend_distinct_keys:
  "distinct (map fst (pendingUsage this))
     \<Longrightarrow> distinct (map fst (pendingUsage (fst (afterAppend e k cust amount endpoint this w))))"
  by (simp add: afterAppend_def distinct_update)

lemma recordUsage_distinct_keys:
  assumes "distinct (map fst (pendingUsage this))"
    and "recordUsage e cust amount endpoint this w = (r, this', w')"
  shows "distinct (map fst (pendingUsage this'))"
proof (cases "\<not> disposed this \<and> cust \<noteq> [] \<and> 0 < amount")
  case False
  then have "this' = this"
    using assms(2) by (auto simp: recordUsage_def split: if_splits)
  then show ?thesis using assms(1) by simp
next
  case True
  then have valid: "\<not> disposed this" "cust \<noteq> []" "0 < amount"
    by simp_all
  show ?thesis
  proof (cases "getSubscriptionItemId e cust")
    case (Throws error)
    then show ?thesis
      using recordUsage_resolver_throws [OF valid Throws, of endpoint w] assms by simp
  next
    case (Returns k)
    let ?this1 = "fst (afterAppend e k cust amount endpoint this w)"
    have appended: "distinct (map fst (pendingUsage ?this1))"
      using assms(1) by (rule afterAppend_distinct_keys)
    show ?thesis
    proof (cases "maxBatchSize this \<le> real (length (batchOf this k)) + 1")
      case True
      then have "flushBatch e k ?this1 (snd (afterAppend e k cust amount endpoint this w))
          = (r, this', w')"
        using recordUsage_at_threshold(1) [OF valid Returns, of endpoint w] assms(2) by simp
      then show ?thesis using appended flushBatch_keys by metis
    next
      case False
      then have "this' = ?this1"
        using recordUsage_below_threshold [OF valid Returns, of endpoint w] assms(2)
        by (auto simp: prod_eq_iff)
      then show ?thesis using appended by simp
    qed
  qed
qed

lemma flushAllBatches_keys:
  "flushAllBatches e this w = (r, this', w')
     \<Longrightarrow> map fst (pendingUsage this') = map fst (pendingUsage this)"
  using flushEach_keys by (simp add: flushAllBatches_flushEach) blast

lemma dispose_keys:
  assumes "dispose e this w = (r, this', w')"
  shows "map fst (pendingUsage this') = map fst (pendingUsage this)"
proof -
  obtain this1 w1 where cleared:
    "(case flushInterval this of
        Some handle \<Rightarrow> (this\<lparr>flushInterval := None\<rparr>,
                        w\<lparr>clearIntervalCalls := clearIntervalCalls w @ [handle]\<rparr>)
      | None \<Rightarrow> (this, w)) = (this1, w1)"
    by fastforce
  then have keys1: "map fst (pendingUsage this1) = map fst (pendingUsage this)"
    by (auto split: option.splits)
  obtain r2 this2 w2 where sweep: "flushAllBatches e this1 w1 = (r2, this2, w2)"
    by (metis prod_cases3)
  have keys2: "map fst (pendingUsage this2) = map fst (pendingUsage this1)"
    by (rule flushAllBatches_keys [OF sweep])
  have "pendingUsage this' = pendingUsage this \<or> pendingUsage this' = pendingUsage this1
      \<or> pendingUsage this' = pendingUsage this2"
    using assms cleared sweep
    by (cases r2) (auto simp: dispose_def dispose_with_def Let_def split: if_splits)
  then show ?thesis using keys1 keys2 by auto
qed

lemma intervalCallback_keys:
  assumes "intervalCallback e this w = (r, this', w')"
  shows "map fst (pendingUsage this') = map fst (pendingUsage this)"
proof -
  obtain r1 this1 w1 where sweep: "flushAllBatches e this w = (r1, this1, w1)"
    by (metis prod_cases3)
  then have "this' = this1"
    using assms by (cases r1) (simp_all add: intervalCallback_def)
  then show ?thesis using flushAllBatches_keys [OF sweep] by simp
qed

lemma batched_step_distinct_keys:
  assumes "distinct (map fst (pendingUsage this))"
    and "batched_step e ev this w = (r, this', w')"
  shows "distinct (map fst (pendingUsage this'))"
proof (cases ev)
  case (RecordUsage cust amount endpoint)
  then show ?thesis using assms recordUsage_distinct_keys by simp
next
  case Dispose
  then show ?thesis using assms dispose_keys [of e this w r this' w'] by simp
next
  case TimerTick
  then show ?thesis using assms intervalCallback_keys [of e this w r this' w'] by simp
qed

lemma batched_run_distinct_keys:
  assumes "distinct (map fst (pendingUsage this))"
    and "batched_run e evs this w = (trace, this', w')"
  shows "distinct (map fst (pendingUsage this'))"
  using assms
proof (induction evs arbitrary: this w trace this' w')
  case Nil
  then show ?case by simp
next
  case (Cons ev evs)
  obtain r this1 w1 where step: "batched_step e ev this w = (r, this1, w1)"
    by (metis prod_cases3)
  obtain rs this2 w2 where rest: "batched_run e evs this1 w1 = (rs, this2, w2)"
    by (metis prod_cases3)
  have "distinct (map fst (pendingUsage this1))"
    by (rule batched_step_distinct_keys [OF Cons.prems(1) step])
  then have "distinct (map fst (pendingUsage this2))"
    using Cons.IH [OF _ rest] by simp
  moreover have "this' = this2"
    using Cons.prems(2) step rest by simp
  ultimately show ?case by simp
qed

end
